theory Spec2Isabelle
  imports Complex_Main "HOL-Library.Sublist"
begin

section \<open>JavaScript strings\<close>

text \<open>
  A JavaScript string is modelled as a \<^typ>\<open>string\<close>, one \<^typ>\<open>char\<close> per code unit, so
  the model covers the strings whose code units lie in the Latin-1 range. Every pattern
  and every literal of \<^verbatim>\<open>api-manager.js\<close> is ASCII. A value that may be
  \<^verbatim>\<open>undefined\<close> is a \<^typ>\<open>string option\<close>; \<open>truthy\<close> is the test that
  \<^verbatim>\<open>if (v)\<close>, \<^verbatim>\<open>v && ...\<close> and \<^verbatim>\<open>!v\<close> make on it.
\<close>

definition truthy :: "string option \<Rightarrow> bool" where
  "truthy v = (case v of None \<Rightarrow> False | Some s \<Rightarrow> s \<noteq> [])"

definition isDigit :: "char \<Rightarrow> bool" where
  "isDigit c = (c \<in> set ''0123456789'')"

definition isUpperAZ :: "char \<Rightarrow> bool" where
  "isUpperAZ c = (c \<in> set ''ABCDEFGHIJKLMNOPQRSTUVWXYZ'')"

definition isLowerAZ :: "char \<Rightarrow> bool" where
  "isLowerAZ c = (c \<in> set ''abcdefghijklmnopqrstuvwxyz'')"

text \<open>The class \<^verbatim>\<open>\w\<close>, which decides the word boundary \<^verbatim>\<open>\b\<close>.\<close>

definition isWordChar :: "char \<Rightarrow> bool" where
  "isWordChar c = (isUpperAZ c \<or> isLowerAZ c \<or> isDigit c \<or> c = CHR ''_'')"

text \<open>The line terminators, which \<^verbatim>\<open>.\<close> does not match: LF and CR.\<close>

definition isLineTerminator :: "char \<Rightarrow> bool" where
  "isLineTerminator c = (c \<in> set [CHR 0x0A, CHR 0x0D])"

text \<open>
  White space as \<^verbatim>\<open>\s\<close> and \<^verbatim>\<open>trim()\<close> see it: TAB, LF, VT, FF, CR, SP and
  NBSP.
\<close>

definition isWhiteSpace :: "char \<Rightarrow> bool" where
  "isWhiteSpace c =
     (c \<in> set [CHR 0x09, CHR 0x0A, CHR 0x0B, CHR 0x0C, CHR 0x0D, CHR 0x20, CHR 0xA0])"

text \<open>
  Case mapping of one code unit. Only the letters A to Z are mapped: a code unit
  outside ASCII never maps to an ASCII one, and the source compares with ASCII text only.
  The two cases of an ASCII letter differ in the bit of value 32.
\<close>

definition lowerChar :: "char \<Rightarrow> char" where
  "lowerChar c =
     (if isUpperAZ c
      then (case c of Char b0 b1 b2 b3 b4 b5 b6 b7 \<Rightarrow> Char b0 b1 b2 b3 b4 True b6 b7)
      else c)"

definition upperChar :: "char \<Rightarrow> char" where
  "upperChar c =
     (if isLowerAZ c
      then (case c of Char b0 b1 b2 b3 b4 b5 b6 b7 \<Rightarrow> Char b0 b1 b2 b3 b4 False b6 b7)
      else c)"

definition toLowerCase :: "string \<Rightarrow> string" where
  "toLowerCase s = map lowerChar s"

fun startsWith :: "string \<Rightarrow> string \<Rightarrow> bool" where
  "startsWith s [] = True"
| "startsWith [] (y # ys) = False"
| "startsWith (x # xs) (y # ys) = (x = y \<and> startsWith xs ys)"

text \<open>\<^verbatim>\<open>s.includes(sub)\<close>: \<open>sub\<close> occurs in \<open>s\<close> at some index.\<close>

fun includesStr :: "string \<Rightarrow> string \<Rightarrow> bool" where
  "includesStr [] sub = (sub = [])"
| "includesStr (x # xs) sub = (startsWith (x # xs) sub \<or> includesStr xs sub)"


definition trim :: "string \<Rightarrow> string" where
  "trim s = rev (dropWhile isWhiteSpace (rev (dropWhile isWhiteSpace s)))"

section \<open>Regular expressions\<close>

text \<open>
  The patterns of the source are values of \<open>regex\<close>, and \<open>matcher\<close> is the
  backtracking matcher of the language: it returns the states in which a match of the
  pattern can end, in the order in which backtracking tries them, so the head of the list
  is the match the engine reports. A state is the code unit before the current position
  (for \<^verbatim>\<open>\b\<close>), the rest of the input and the captures made so far. The quantifiers
  of the source all stand on a single-character atom, except \<^verbatim>\<open>?\<close>.
  The flag \<open>ic\<close> is the pattern's \<^verbatim>\<open>i\<close> flag.
\<close>

datatype atom = Lit char | AnyChar | DigitChar | SpaceChar

datatype regex =
    Atom atom
  | Eps
  | Cat regex regex
  | Or regex regex
  | Opt regex
  | Star atom
  | LazyStar atom
  | Plus atom
  | Times nat nat atom
  | WordBoundary
  | NotFollowedBy regex
  | Group nat regex

type_synonym captures = "(nat \<times> string) list"

type_synonym mstate = "char option \<times> string \<times> captures"

fun atomOk :: "bool \<Rightarrow> atom \<Rightarrow> char \<Rightarrow> bool" where
  "atomOk ic (Lit c) x = (if ic then upperChar x = upperChar c else x = c)"
| "atomOk ic AnyChar x = (\<not> isLineTerminator x)"
| "atomOk ic DigitChar x = isDigit x"
| "atomOk ic SpaceChar x = isWhiteSpace x"

text \<open>
  A greedy quantifier \<^verbatim>\<open>a{lo,hi}\<close> (no upper bound: \<open>None\<close>): one more repetition is
  tried before stopping. The lazy \<^verbatim>\<open>a*?\<close> stops first.
\<close>

fun greedy ::
  "bool \<Rightarrow> atom \<Rightarrow> nat \<Rightarrow> nat option \<Rightarrow> char option \<Rightarrow> captures \<Rightarrow> string \<Rightarrow> mstate list"
where
  "greedy ic a lo hi p c [] = (if lo = 0 then [(p, [], c)] else [])"
| "greedy ic a lo hi p c (x # xs) =
     (if hi \<noteq> Some 0 \<and> atomOk ic a x
      then greedy ic a (lo - 1) (map_option (\<lambda>h. h - 1) hi) (Some x) c xs
      else [])
     @ (if lo = 0 then [(p, x # xs, c)] else [])"

fun lazy :: "bool \<Rightarrow> atom \<Rightarrow> char option \<Rightarrow> captures \<Rightarrow> string \<Rightarrow> mstate list" where
  "lazy ic a p c [] = [(p, [], c)]"
| "lazy ic a p c (x # xs) =
     (p, x # xs, c) # (if atomOk ic a x then lazy ic a (Some x) c xs else [])"

definition isWordAt :: "char option \<Rightarrow> bool" where
  "isWordAt p = (case p of None \<Rightarrow> False | Some x \<Rightarrow> isWordChar x)"

definition nextChar :: "string \<Rightarrow> char option" where
  "nextChar s = (case s of [] \<Rightarrow> None | x # _ \<Rightarrow> Some x)"

text \<open>
  An optional part that matched the empty string is rejected, as the language's
  repeat matcher does; a negative lookahead succeeds, consuming nothing, when its body has
  no match here.
\<close>

fun matcher :: "bool \<Rightarrow> regex \<Rightarrow> mstate \<Rightarrow> mstate list" where
  "matcher ic (Atom a) (p, s, c) =
     (case s of [] \<Rightarrow> [] | x # xs \<Rightarrow> if atomOk ic a x then [(Some x, xs, c)] else [])"
| "matcher ic Eps st = [st]"
| "matcher ic (Cat r1 r2) st = concat (map (matcher ic r2) (matcher ic r1 st))"
| "matcher ic (Or r1 r2) st = matcher ic r1 st @ matcher ic r2 st"
| "matcher ic (Opt r) (p, s, c) =
     filter (\<lambda>(p', s', c'). length s' < length s) (matcher ic r (p, s, c)) @ [(p, s, c)]"
| "matcher ic (Star a) (p, s, c) = greedy ic a 0 None p c s"
| "matcher ic (LazyStar a) (p, s, c) = lazy ic a p c s"
| "matcher ic (Plus a) (p, s, c) = greedy ic a 1 None p c s"
| "matcher ic (Times lo hi a) (p, s, c) = greedy ic a lo (Some hi) p c s"
| "matcher ic WordBoundary (p, s, c) =
     (if isWordAt p \<noteq> isWordAt (nextChar s) then [(p, s, c)] else [])"
| "matcher ic (NotFollowedBy r) st = (if matcher ic r st = [] then [st] else [])"
| "matcher ic (Group k r) (p, s, c) =
     map (\<lambda>(p', s', c'). (p', s', (k, take (length s - length s') s) # c'))
       (matcher ic r (p, s, c))"

text \<open>A run of literal characters, and one literal character.\<close>

fun lit :: "string \<Rightarrow> regex" where
  "lit [] = Eps"
| "lit [x] = Atom (Lit x)"
| "lit (x # y # ys) = Cat (Atom (Lit x)) (lit (y # ys))"

text \<open>
  \<^verbatim>\<open>regex.exec(s)\<close> without the \<^verbatim>\<open>g\<close> flag, which \<^verbatim>\<open>s.match(regex)\<close> and
  \<^verbatim>\<open>regex.test(s)\<close> call: the first index at which the pattern matches, with the
  matched text (\<^verbatim>\<open>m[0]\<close>) and the captures.
\<close>

fun exec :: "bool \<Rightarrow> regex \<Rightarrow> char option \<Rightarrow> string \<Rightarrow> (string \<times> captures) option" where
  "exec ic r p [] =
     (case matcher ic r (p, [], []) of [] \<Rightarrow> None | (p', s', c') # _ \<Rightarrow> Some ([], c'))"
| "exec ic r p (x # xs) =
     (case matcher ic r (p, x # xs, []) of
        [] \<Rightarrow> exec ic r (Some x) xs
      | (p', s', c') # _ \<Rightarrow> Some (take (length (x # xs) - length s') (x # xs), c'))"

definition test :: "bool \<Rightarrow> regex \<Rightarrow> string \<Rightarrow> bool" where
  "test ic r s = (exec ic r None s \<noteq> None)"

text \<open>
  A capture read inside a template literal: a group that took no part prints as
  \<^verbatim>\<open>undefined\<close>.
\<close>

definition capture :: "captures \<Rightarrow> nat \<Rightarrow> string" where
  "capture c k = (case map_of c k of None \<Rightarrow> ''undefined'' | Some g \<Rightarrow> g)"

text \<open>
  \<^verbatim>\<open>s.replace(regex, '')\<close> with the \<^verbatim>\<open>g\<close> flag: every match, found from left to
  right after the end of the one before, is removed; after an empty match the search moves
  on by one code unit.
\<close>

function removeMatches :: "bool \<Rightarrow> regex \<Rightarrow> char option \<Rightarrow> string \<Rightarrow> string" where
  "removeMatches ic r p [] = []"
| "removeMatches ic r p (x # xs) =
     (case matcher ic r (p, x # xs, []) of
        [] \<Rightarrow> x # removeMatches ic r (Some x) xs
      | (p', s', c') # _ \<Rightarrow>
          if length s' < length (x # xs) then removeMatches ic r p' s'
          else x # removeMatches ic r (Some x) xs)"
  by pat_completeness auto
termination
  by (relation "measure (\<lambda>(ic, r, p, s). length s)") auto

text \<open>The least number of code units that a match of a pattern consumes.\<close>

fun minLen :: "regex \<Rightarrow> nat" where
  "minLen (Atom a) = 1"
| "minLen Eps = 0"
| "minLen (Cat r1 r2) = minLen r1 + minLen r2"
| "minLen (Or r1 r2) = min (minLen r1) (minLen r2)"
| "minLen (Opt r) = 0"
| "minLen (Star a) = 0"
| "minLen (LazyStar a) = 0"
| "minLen (Plus a) = 1"
| "minLen (Times lo hi a) = lo"
| "minLen WordBoundary = 0"
| "minLen (NotFollowedBy r) = 0"
| "minLen (Group k r) = minLen r"

section \<open>Metadata extraction\<close>

text \<open>
  The record that \<^verbatim>\<open>extractMetadataFromFilename\<close> builds. The objects that
  \<^verbatim>\<open>processHashListForMatching\<close> builds carry neither \<^verbatim>\<open>hdr\<close> nor
  \<^verbatim>\<open>codec\<close>, so these two fields may be absent; a candidate is such a record with
  its magnet link.
\<close>

record metadata =
  title :: string
  quality :: string
  size' :: string
  type' :: string
  hdr :: "string option"
  codec :: "string option"

record match = metadata +
  magnet :: string

text \<open>The five patterns that \<^verbatim>\<open>cleanTitle\<close> removes, in the order of its calls.\<close>

definition bracketGroup :: regex where
  "bracketGroup = Cat (lit ''['') (Cat (LazyStar AnyChar) (lit '']''))"

definition parenGroup :: regex where
  "parenGroup = Cat (lit ''('') (Cat (LazyStar AnyChar) (lit '')''))"

definition fourDigits :: regex where
  "fourDigits = Cat (Times 4 4 DigitChar) (Opt (lit ''p''))"

definition sourceTag :: regex where
  "sourceTag =
     Or (lit ''BluRay'') (Or (lit ''WEB-DL'') (Or (lit ''WEBRip'') (Or (lit ''HDRip'') (lit ''BRRip''))))"

definition codecTag :: regex where
  "codecTag = Or (lit ''x264'') (Or (lit ''x265'') (lit ''HEVC''))"

definition cleanTitle :: "string \<Rightarrow> string" where
  "cleanTitle t =
     trim
      (removeMatches True codecTag None
      (removeMatches True sourceTag None
      (removeMatches False fourDigits None
      (removeMatches False parenGroup None
      (removeMatches False bracketGroup None t)))))"

text \<open>Some pattern of \<^verbatim>\<open>cleanTitle\<close> still has a match in the string.\<close>

definition removable :: "string \<Rightarrow> bool" where
  "removable s =
     (test False bracketGroup s \<or> test False parenGroup s \<or> test False fourDigits s
      \<or> test True sourceTag s \<or> test True codecTag s)"

definition extractQuality :: "string \<Rightarrow> string" where
  "extractQuality t =
     (case exec True
             (Or (Group 1 (Cat (Times 3 4 DigitChar) (lit ''p''))) (Or (lit ''4K'') (lit ''UHD'')))
             None t of
        None \<Rightarrow> ''Unknown''
      | Some (m0, c) \<Rightarrow> m0)"

definition sizePattern :: regex where
  "sizePattern =
     Cat (Group 1 (Cat (Plus DigitChar) (Opt (Cat (lit ''.'') (Plus DigitChar)))))
       (Cat (Star SpaceChar) (Group 2 (Or (lit ''GB'') (lit ''MB''))))"

definition extractSize :: "string \<Rightarrow> string" where
  "extractSize t =
     (case exec True sizePattern None t of
        None \<Rightarrow> ''Unknown''
      | Some (m0, c) \<Rightarrow> capture c 1 @ '' '' @ capture c 2)"

definition detectContentType :: "string \<Rightarrow> string" where
  "detectContentType t =
     (if test True
           (Or (Cat (lit ''S'') (Cat (Times 2 2 DigitChar) (Cat (lit ''E'') (Times 2 2 DigitChar))))
             (Or (lit ''Season'') (lit ''Episode''))) t
      then ''tv'' else ''movie'')"

definition dolbyVisionPattern :: regex where
  "dolbyVisionPattern =
     Or (Cat (lit ''dolby'') (Cat (Opt (Atom AnyChar)) (lit ''vision''))) (lit ''dv'')"

definition extractHDRInfo :: "string \<Rightarrow> string" where
  "extractHDRInfo t =
     (let dolbyVision = test True dolbyVisionPattern t;
          hdr10Plus = test True (lit ''hdr10+'') t;
          hdr10 = test True (Cat (lit ''hdr10'') (NotFollowedBy (lit ''+''))) t;
          hdr = (test True (Cat WordBoundary (Cat (lit ''hdr'') WordBoundary)) t
                 \<and> \<not> test True (lit ''hdr10'') t)
      in if dolbyVision then ''Dolby Vision''
         else if hdr10Plus then ''HDR10+''
         else if hdr10 then ''HDR10''
         else if hdr then ''HDR''
         else ''SDR'')"

definition extractCodec :: "string \<Rightarrow> string" where
  "extractCodec t =
     (if test True (Or (lit ''x265'') (Or (lit ''hevc'')
           (Cat (lit ''h'') (Cat (Opt (lit ''.'')) (lit ''265''))))) t then ''HEVC''
      else if test True (Or (lit ''x264'')
           (Cat (lit ''h'') (Cat (Opt (lit ''.'')) (lit ''264'')))) t then ''H.264''
      else if test True (lit ''av1'') t then ''AV1''
      else ''Unknown'')"

definition extractMetadataFromFilename :: "string \<Rightarrow> metadata" where
  "extractMetadataFromFilename filename' =
     \<lparr> title = cleanTitle filename',
       quality = extractQuality filename',
       size' = extractSize filename',
       type' = detectContentType filename',
       hdr = Some (extractHDRInfo filename'),
       codec = Some (extractCodec filename') \<rparr>"

section \<open>Quality ranking\<close>

definition getQualityRank :: "string option \<Rightarrow> int" where
  "getQualityRank quality' =
     (if \<not> truthy quality' then - 1
      else if quality' = Some ''Unknown'' then - 1
      else
        let normalized = toLowerCase (the quality') in
        if includesStr normalized ''4k'' \<or> includesStr normalized ''uhd'' then 5
        else if includesStr normalized ''2160p'' then 4
        else if includesStr normalized ''1080p'' then 3
        else if includesStr normalized ''720p'' then 2
        else if includesStr normalized ''480p'' then 1
        else 0)"

definition isBetterQuality :: "string option \<Rightarrow> string option \<Rightarrow> string option \<Rightarrow> bool" where
  "isBetterQuality newQuality currentQuality preferredQuality =
     (let newRank = getQualityRank newQuality;
          currentRank = getQualityRank currentQuality;
          preferredRank = getQualityRank preferredQuality
      in if newRank > currentRank
         then currentRank < preferredRank \<or> newRank \<le> preferredRank
         else False)"

section \<open>Preference matching\<close>

text \<open>
  The preferences object comes from the caller and any of its fields may be absent. The
  flags are read for their truth value only.
\<close>

record preferences =
  prefQuality :: "string option"
  allowHigherQuality :: bool
  allowLowerQuality :: bool
  hdrPreference :: "string option"
  fileTypes :: "string list option"
  maxSize :: "string option"
  autoUpgrade :: bool
  deleteOldAfterUpgrade :: bool
  maxUpgradeMatches :: "int option"
  completeSeasons :: bool

text \<open>
  \<^verbatim>\<open>parseFloat\<close> on the text of the first group of the size pattern, which is a run of
  digits with an optional fraction. The value is the exact decimal number: the language
  rounds it to the nearest double, and so does the division by 1024, which the model does
  not follow. Model and code agree on the values that a double holds exactly, whole
  numbers of megabytes and gigabytes among them; on a size such as \<open>0.1 GB\<close> the
  code's number is the double next to the model's.
\<close>

definition digitValue :: "char \<Rightarrow> nat" where
  "digitValue c = of_char c - 48"

definition digitsValue :: "string \<Rightarrow> nat" where
  "digitsValue ds = foldl (\<lambda>n d. 10 * n + digitValue d) 0 ds"

definition parseFloat :: "string \<Rightarrow> rat" where
  "parseFloat s =
     (let whole = takeWhile isDigit s in
      case dropWhile isDigit s of
        [] \<Rightarrow> of_nat (digitsValue whole)
      | d # ds \<Rightarrow>
          if d = CHR ''.''
          then let frac = takeWhile isDigit ds
               in of_nat (digitsValue whole) + of_nat (digitsValue frac) / 10 ^ length frac
          else of_nat (digitsValue whole))"

definition toUpperCase :: "string \<Rightarrow> string" where
  "toUpperCase s = map upperChar s"

definition convertSizeToGB :: "string option \<Rightarrow> rat" where
  "convertSizeToGB sizeString =
     (if \<not> truthy sizeString then 0
      else if sizeString = Some ''Unknown'' then 0
      else
        case exec True sizePattern None (the sizeString) of
          None \<Rightarrow> 0
        | Some (m0, c) \<Rightarrow>
            let v = parseFloat (capture c 1);
                unit = toUpperCase (capture c 2)
            in if unit = ''GB'' then v else v / 1024)"

text \<open>
  The callback of \<^verbatim>\<open>some\<close> in \<^verbatim>\<open>matchesOtherPreferences\<close>: the switch on
  the name of a release type.
\<close>

definition hasType :: "string \<Rightarrow> string \<Rightarrow> bool" where
  "hasType t ty =
     (if ty = ''remux'' then test True (lit ''remux'') t
      else if ty = ''bluray'' then test True (Or (lit ''bluray'') (lit ''bdrip'')) t
      else if ty = ''web'' then test True (Or (lit ''web-dl'') (lit ''webrip'')) t
      else False)"

definition matchesOtherPreferences :: "('a metadata_scheme) \<Rightarrow> preferences \<Rightarrow> bool" where
  "matchesOtherPreferences m prefs =
     (let sizeClause =
            (if truthy (maxSize prefs) \<and> size' m \<noteq> ''Unknown''
             then
               let sizeInGB = convertSizeToGB (Some (size' m));
                   maxSizeGB = convertSizeToGB (maxSize prefs)
               in if sizeInGB > maxSizeGB then False else True
             else True)
      in case fileTypes prefs of
           None \<Rightarrow> sizeClause
         | Some tys \<Rightarrow>
             if length tys > 0
             then
               let hasPreferredType = list_ex (hasType (title m)) tys
               in if \<not> hasPreferredType then False else sizeClause
             else sizeClause)"

definition matchesPreferences :: "('a metadata_scheme) \<Rightarrow> preferences \<Rightarrow> bool" where
  "matchesPreferences m prefs =
     (let qualityMatching =
            (if truthy (prefQuality prefs) \<and> quality m \<noteq> ''Unknown''
             then
               let metadataRank = getQualityRank (Some (quality m));
                   preferredRank = getQualityRank (prefQuality prefs)
               in if metadataRank = preferredRank then matchesOtherPreferences m prefs
                  else if metadataRank > preferredRank \<and> \<not> allowHigherQuality prefs then False
                  else if metadataRank < preferredRank \<and> \<not> allowLowerQuality prefs then False
                  else matchesOtherPreferences m prefs
             else matchesOtherPreferences m prefs)
      in if hdrPreference prefs \<noteq> None \<and> hdrPreference prefs \<noteq> Some ''any''
         then
           let isHDRContent = (truthy (hdr m) \<and> hdr m \<noteq> Some ''SDR'')
           in if hdrPreference prefs = Some ''sdr-only'' \<and> isHDRContent then False
              else if hdrPreference prefs = Some ''hdr-only'' \<and> \<not> isHDRContent then False
              else qualityMatching
         else qualityMatching)"

section \<open>Selection for a show\<close>

text \<open>
  The callback of the filter in \<^verbatim>\<open>findBestQualityMatchForShow\<close>, and the key that
  \<^verbatim>\<open>groupShowsBySeasonStructure\<close> gives a candidate.
\<close>

definition seasonPackPattern :: regex where
  "seasonPackPattern =
     Or (lit ''complete'') (Or (lit ''season'') (Cat (lit ''s'') (Times 2 2 DigitChar)))"

definition episodePattern :: regex where
  "episodePattern =
     Cat (lit ''s'') (Cat (Times 2 2 DigitChar) (Cat (lit ''e'') (Times 2 2 DigitChar)))"

definition showFilter :: "preferences \<Rightarrow> match \<Rightarrow> bool" where
  "showFilter prefs m =
     (if \<not> matchesPreferences m prefs then False
      else if completeSeasons prefs
      then
        if test True seasonPackPattern (title m) then True
        else if test True episodePattern (title m) then False
        else True
      else True)"

definition groupKey :: "match \<Rightarrow> string" where
  "groupKey m =
     (let groupKey0 = cleanTitle (title m);
          seasonMatch = exec True (Cat (lit ''s'') (Group 1 (Times 2 2 DigitChar))) None (title m);
          episodeMatch =
            exec True (Cat (lit ''s'') (Cat (Times 2 2 DigitChar)
                         (Cat (lit ''e'') (Group 1 (Times 2 2 DigitChar))))) None (title m)
      in case seasonMatch of
           Some (m0, c) \<Rightarrow>
             let seasonNum = capture c 1 in
             if episodeMatch \<noteq> None then groupKey0 @ ''_S'' @ seasonNum @ ''_Individual''
             else groupKey0 @ ''_S'' @ seasonNum @ ''_Pack''
         | None \<Rightarrow> groupKey0 @ ''_Complete'')"

text \<open>
  The \<^verbatim>\<open>Map\<close> of groups keeps the keys in the order of their first insertion: an
  association list.
\<close>

fun addToGroup :: "string \<Rightarrow> match \<Rightarrow> (string \<times> match list) list \<Rightarrow> (string \<times> match list) list"
where
  "addToGroup k m [] = [(k, [m])]"
| "addToGroup k m ((k', ms) # gs) =
     (if k' = k then (k', ms @ [m]) # gs else (k', ms) # addToGroup k m gs)"

definition groupShowsBySeasonStructure :: "match list \<Rightarrow> (string \<times> match list) list" where
  "groupShowsBySeasonStructure matches = foldl (\<lambda>groups m. addToGroup (groupKey m) m groups) [] matches"

text \<open>
  \<^verbatim>\<open>Array.prototype.sort\<close> is stable; the comparator orders by rank, best first.
\<close>

definition sortByRank :: "match list \<Rightarrow> match list" where
  "sortByRank ms = sort_key (\<lambda>m. - getQualityRank (Some (quality m))) ms"

definition bestOfGroup :: "preferences \<Rightarrow> match list \<Rightarrow> match option" where
  "bestOfGroup prefs matches =
     (let sortedMatches = sortByRank matches;
          preferredRank = getQualityRank (prefQuality prefs)
      in case find (\<lambda>m. getQualityRank (Some (quality m)) = preferredRank
                        \<or> getQualityRank (Some (quality m)) \<le> preferredRank) sortedMatches of
           Some m \<Rightarrow> Some m
         | None \<Rightarrow>
             if allowHigherQuality prefs
             then (case sortedMatches of [] \<Rightarrow> None | m # _ \<Rightarrow> Some m)
             else None)"

text \<open>
  \<^verbatim>\<open>findBestQualityMatchForShow\<close>, given what the search for the show returned.
\<close>

definition findBestQualityMatchForShow :: "match list \<Rightarrow> preferences \<Rightarrow> match list" where
  "findBestQualityMatchForShow allMatches prefs =
     (if length allMatches = 0 then []
      else
        let filteredMatches = filter (showFilter prefs) allMatches;
            seasonGroups = groupShowsBySeasonStructure filteredMatches
        in List.map_filter (\<lambda>(k, ms). bestOfGroup prefs ms) seasonGroups)"

section \<open>The upgrade scanner\<close>

text \<open>
  The scanner talks to four collaborators. Three of them are methods of the class that
  wrap an HTTP request in a \<^verbatim>\<open>try\<close> and so never throw:
  \<^verbatim>\<open>getRealDebridTorrents\<close> and \<^verbatim>\<open>addMagnetToRealDebrid\<close> return
  \<^verbatim>\<open>{success: true, data}\<close> or \<^verbatim>\<open>{success: false, error}\<close>, and
  \<^verbatim>\<open>deleteRealDebridTorrent\<close> returns a boolean. The search
  \<^verbatim>\<open>findAllMatchingContent\<close> is not defined in the class: it is a parameter here, and
  its promise may be rejected (\<open>Inl\<close> with the error's message). A collaborator's answer
  may depend on every call made before it, so it is a function of the calls so far; the
  state of a scan is the report under construction and that list of calls.
\<close>

record torrent =
  id' :: string
  filename :: string
  status :: string

datatype 'a apiResult = Success (data: 'a) | Failure (error: string)

datatype call =
    GetRealDebridTorrents string
  | FindAllMatchingContent string string
  | AddMagnetToRealDebrid string string
  | DeleteRealDebridTorrent string string

record collaborators =
  getRealDebridTorrents :: "call list \<Rightarrow> string \<Rightarrow> torrent list apiResult"
  findAllMatchingContent :: "call list \<Rightarrow> string \<Rightarrow> string \<Rightarrow> string + match list"
  addMagnetToRealDebrid :: "call list \<Rightarrow> string \<Rightarrow> string \<Rightarrow> unit apiResult"
  deleteRealDebridTorrent :: "call list \<Rightarrow> string \<Rightarrow> string \<Rightarrow> bool"

record results =
  checkedTorrents :: nat
  upgradesFound :: nat
  upgradesAdded :: nat
  errors :: "string list"

record scan =
  report :: results
  calls :: "call list"

text \<open>\<^verbatim>\<open>xs.slice(0, n)\<close>: a negative \<open>n\<close> counts from the end.\<close>

definition slice0 :: "'a list \<Rightarrow> int \<Rightarrow> 'a list" where
  "slice0 xs n = (if n < 0 then take (nat (int (length xs) + n)) xs else take (nat n) xs)"

text \<open>
  \<^verbatim>\<open>findBetterQualityMatches\<close> makes one call to the search; a rejection passes
  through it.
\<close>

definition findBetterQualityMatches ::
  "collaborators \<Rightarrow> call list \<Rightarrow> string \<Rightarrow> string \<Rightarrow> string \<Rightarrow> preferences \<Rightarrow> string + match list"
where
  "findBetterQualityMatches c h title' ty currentQuality prefs =
     (case findAllMatchingContent c h title' ty of
        Inl e \<Rightarrow> Inl e
      | Inr allMatches \<Rightarrow>
          let betterMatches =
                filter (\<lambda>m. isBetterQuality (Some (quality m)) (Some currentQuality) (prefQuality prefs)
                           \<and> matchesPreferences m prefs) allMatches
          in Inr (slice0 (sortByRank betterMatches)
                    (case maxUpgradeMatches prefs of
                       None \<Rightarrow> 3
                     | Some n \<Rightarrow> if n = 0 then 3 else n)))"

text \<open>The inner loop: one submission for each better candidate of a held torrent.\<close>

fun addUpgrades ::
  "collaborators \<Rightarrow> string \<Rightarrow> preferences \<Rightarrow> torrent \<Rightarrow> string \<Rightarrow> match list \<Rightarrow> scan \<Rightarrow> scan"
where
  "addUpgrades c rdApiKey prefs t currentTitle [] st = st"
| "addUpgrades c rdApiKey prefs t currentTitle (m # ms) st =
     (let addResult = addMagnetToRealDebrid c (calls st) rdApiKey (magnet m);
          st1 = st\<lparr>calls := calls st @ [AddMagnetToRealDebrid rdApiKey (magnet m)]\<rparr>
      in case addResult of
           Success d \<Rightarrow>
             let st2 = st1\<lparr>report := (report st1)\<lparr>upgradesAdded := upgradesAdded (report st1) + 1\<rparr>\<rparr>;
                 st3 = (if deleteOldAfterUpgrade prefs
                        then st2\<lparr>calls := calls st2 @ [DeleteRealDebridTorrent rdApiKey (id' t)]\<rparr>
                        else st2)
             in addUpgrades c rdApiKey prefs t currentTitle ms st3
         | Failure e \<Rightarrow>
             addUpgrades c rdApiKey prefs t currentTitle ms
               (st1\<lparr>report := (report st1)\<lparr>errors := errors (report st1)
                   @ [''Failed to upgrade '' @ currentTitle @ '': '' @ e]\<rparr>\<rparr>))"

text \<open>
  The loop over the held torrents. It returns the message of the error that left it, if
  one did, with the state reached: the report is updated in place, so what was recorded
  before a throw stays.
\<close>

fun scanTorrents ::
  "collaborators \<Rightarrow> string \<Rightarrow> preferences \<Rightarrow> torrent list \<Rightarrow> scan \<Rightarrow> string option \<times> scan"
where
  "scanTorrents c rdApiKey prefs [] st = (None, st)"
| "scanTorrents c rdApiKey prefs (t # ts) st =
     (if status t \<noteq> ''downloaded'' then scanTorrents c rdApiKey prefs ts st
      else
        let currentMetadata = extractMetadataFromFilename (filename t);
            found = findBetterQualityMatches c (calls st) (title currentMetadata)
                      (type' currentMetadata) (quality currentMetadata) prefs;
            st1 = st\<lparr>calls := calls st
                    @ [FindAllMatchingContent (title currentMetadata) (type' currentMetadata)]\<rparr>
        in case found of
             Inl e \<Rightarrow> (Some e, st1)
           | Inr betterMatches \<Rightarrow>
               if length betterMatches > 0
               then
                 let st2 = st1\<lparr>report := (report st1)\<lparr>upgradesFound :=
                             upgradesFound (report st1) + length betterMatches\<rparr>\<rparr>
                 in if autoUpgrade prefs
                    then scanTorrents c rdApiKey prefs ts
                           (addUpgrades c rdApiKey prefs t (title currentMetadata) betterMatches st2)
                    else scanTorrents c rdApiKey prefs ts st2
               else scanTorrents c rdApiKey prefs ts st1)"

text \<open>The search that the loop makes for a held torrent, and the calls that are searches.\<close>

definition searchFor :: "torrent \<Rightarrow> call" where
  "searchFor t =
     FindAllMatchingContent (title (extractMetadataFromFilename (filename t)))
       (type' (extractMetadataFromFilename (filename t)))"

fun isSearch :: "call \<Rightarrow> bool" where
  "isSearch (FindAllMatchingContent t ty) = True"
| "isSearch x = False"

text \<open>
  Two properties of the calls made so far, which every step of the scan keeps: each failed
  submission has its message in the error list, and no search made was rejected.
\<close>

definition recorded :: "collaborators \<Rightarrow> string \<Rightarrow> scan \<Rightarrow> bool" where
  "recorded c k st =
     (\<forall>h mg e. prefix (h @ [AddMagnetToRealDebrid k mg]) (calls st) \<longrightarrow>
        addMagnetToRealDebrid c h k mg = Failure e \<longrightarrow>
        (\<exists>t. ''Failed to upgrade '' @ t @ '': '' @ e \<in> set (errors (report st))))"

definition answered :: "collaborators \<Rightarrow> call list \<Rightarrow> bool" where
  "answered c cs =
     (\<forall>h t ty. prefix (h @ [FindAllMatchingContent t ty]) cs \<longrightarrow>
        (\<exists>ms. findAllMatchingContent c h t ty = Inr ms))"

definition initialResults :: results where
  "initialResults = \<lparr> checkedTorrents = 0, upgradesFound = 0, upgradesAdded = 0, errors = [] \<rparr>"

text \<open>
  What follows the listing of the held torrents: the count, the loop, and the
  \<^verbatim>\<open>catch\<close> around it, which records the error and returns the report.
\<close>

definition scanAndCatch :: "collaborators \<Rightarrow> string \<Rightarrow> preferences \<Rightarrow> torrent list \<Rightarrow> scan \<Rightarrow> scan" where
  "scanAndCatch c rdApiKey prefs ts st =
     (let st1 = st\<lparr>report := (report st)\<lparr>checkedTorrents := length ts\<rparr>\<rparr> in
      case scanTorrents c rdApiKey prefs ts st1 of
        (None, st2) \<Rightarrow> st2
      | (Some e, st2) \<Rightarrow>
          st2\<lparr>report := (report st2)\<lparr>errors := errors (report st2)
              @ [''Quality upgrade check error: '' @ e]\<rparr>\<rparr>)"

text \<open>
  The second definition of \<^verbatim>\<open>checkForQualityUpgrades\<close>, the one in force (a later
  method of a class body replaces an earlier one of the same name), with the content type
  as third parameter. The loops above are its loops.
\<close>

definition checkForQualityUpgrades ::
  "collaborators \<Rightarrow> string \<Rightarrow> preferences \<Rightarrow> string option \<Rightarrow> scan"
where
  "checkForQualityUpgrades c rdApiKey prefs contentType =
     (let torrentsResult = getRealDebridTorrents c [] rdApiKey;
          st = \<lparr> report = initialResults, calls = [GetRealDebridTorrents rdApiKey] \<rparr>
      in case torrentsResult of
           Failure e \<Rightarrow>
             st\<lparr>report := (report st)\<lparr>errors := errors (report st) @ [''Failed to get current torrents'']\<rparr>\<rparr>
         | Success currentTorrents \<Rightarrow>
             let filteredTorrents =
                   (if truthy contentType
                    then filter (\<lambda>t. type' (extractMetadataFromFilename (filename t)) = the contentType)
                           currentTorrents
                    else currentTorrents)
             in scanAndCatch c rdApiKey prefs filteredTorrents st)"

text \<open>
  The first definition of \<^verbatim>\<open>checkForQualityUpgrades\<close>, of two parameters, with its
  own two loops, written out from its text.
\<close>

fun addUpgrades1 ::
  "collaborators \<Rightarrow> string \<Rightarrow> preferences \<Rightarrow> torrent \<Rightarrow> string \<Rightarrow> match list \<Rightarrow> scan \<Rightarrow> scan"
where
  "addUpgrades1 c rdApiKey prefs t currentTitle [] st = st"
| "addUpgrades1 c rdApiKey prefs t currentTitle (m # ms) st =
     (let addResult = addMagnetToRealDebrid c (calls st) rdApiKey (magnet m);
          st1 = st\<lparr>calls := calls st @ [AddMagnetToRealDebrid rdApiKey (magnet m)]\<rparr>
      in case addResult of
           Success d \<Rightarrow>
             let st2 = st1\<lparr>report := (report st1)\<lparr>upgradesAdded := upgradesAdded (report st1) + 1\<rparr>\<rparr>;
                 st3 = (if deleteOldAfterUpgrade prefs
                        then st2\<lparr>calls := calls st2 @ [DeleteRealDebridTorrent rdApiKey (id' t)]\<rparr>
                        else st2)
             in addUpgrades1 c rdApiKey prefs t currentTitle ms st3
         | Failure e \<Rightarrow>
             addUpgrades1 c rdApiKey prefs t currentTitle ms
               (st1\<lparr>report := (report st1)\<lparr>errors := errors (report st1)
                   @ [''Failed to upgrade '' @ currentTitle @ '': '' @ e]\<rparr>\<rparr>))"

fun scanTorrents1 ::
  "collaborators \<Rightarrow> string \<Rightarrow> preferences \<Rightarrow> torrent list \<Rightarrow> scan \<Rightarrow> string option \<times> scan"
where
  "scanTorrents1 c rdApiKey prefs [] st = (None, st)"
| "scanTorrents1 c rdApiKey prefs (t # ts) st =
     (if status t \<noteq> ''downloaded'' then scanTorrents1 c rdApiKey prefs ts st
      else
        let currentMetadata = extractMetadataFromFilename (filename t);
            found = findBetterQualityMatches c (calls st) (title currentMetadata)
                      (type' currentMetadata) (quality currentMetadata) prefs;
            st1 = st\<lparr>calls := calls st
                    @ [FindAllMatchingContent (title currentMetadata) (type' currentMetadata)]\<rparr>
        in case found of
             Inl e \<Rightarrow> (Some e, st1)
           | Inr betterMatches \<Rightarrow>
               if length betterMatches > 0
               then
                 let st2 = st1\<lparr>report := (report st1)\<lparr>upgradesFound :=
                             upgradesFound (report st1) + length betterMatches\<rparr>\<rparr>
                 in if autoUpgrade prefs
                    then scanTorrents1 c rdApiKey prefs ts
                           (addUpgrades1 c rdApiKey prefs t (title currentMetadata) betterMatches st2)
                    else scanTorrents1 c rdApiKey prefs ts st2
               else scanTorrents1 c rdApiKey prefs ts st1)"

definition checkForQualityUpgrades1 :: "collaborators \<Rightarrow> string \<Rightarrow> preferences \<Rightarrow> scan" where
  "checkForQualityUpgrades1 c rdApiKey prefs =
     (let torrentsResult = getRealDebridTorrents c [] rdApiKey;
          st = \<lparr> report = initialResults, calls = [GetRealDebridTorrents rdApiKey] \<rparr>
      in case torrentsResult of
           Failure e \<Rightarrow>
             st\<lparr>report := (report st)\<lparr>errors := errors (report st) @ [''Failed to get current torrents'']\<rparr>\<rparr>
         | Success currentTorrents \<Rightarrow>
             let st1 = st\<lparr>report := (report st)\<lparr>checkedTorrents := length currentTorrents\<rparr>\<rparr> in
             case scanTorrents1 c rdApiKey prefs currentTorrents st1 of
               (None, st2) \<Rightarrow> st2
             | (Some e, st2) \<Rightarrow>
                 st2\<lparr>report := (report st2)\<lparr>errors := errors (report st2)
                     @ [''Quality upgrade check error: '' @ e]\<rparr>\<rparr>)"

section \<open>Sample inputs\<close>

text \<open>Concrete inputs at which the theorems below are evaluated.\<close>

definition samplePreferences :: preferences where
  "samplePreferences =
     \<lparr> prefQuality = Some ''1080p'', allowHigherQuality = True, allowLowerQuality = False,
       hdrPreference = None, fileTypes = None, maxSize = None, autoUpgrade = True,
       deleteOldAfterUpgrade = True, maxUpgradeMatches = None, completeSeasons = True \<rparr>"

definition candidate :: "string \<Rightarrow> string \<Rightarrow> string \<Rightarrow> match" where
  "candidate t q mg =
     \<lparr> title = t, quality = q, size' = ''Unknown'', type' = ''tv'', hdr = None, codec = None,
       magnet = mg \<rparr>"

definition held :: "string \<Rightarrow> string \<Rightarrow> torrent" where
  "held i f = \<lparr> id' = i, filename = f, status = ''downloaded'' \<rparr>"

text \<open>One held episode; the search finds nothing.\<close>

definition oneShowHeld :: collaborators where
  "oneShowHeld =
     \<lparr> getRealDebridTorrents = (\<lambda>h k. Success [held ''T1'' ''Show.S01E01.720p'']),
       findAllMatchingContent = (\<lambda>h t ty. Inr []),
       addMagnetToRealDebrid = (\<lambda>h k mg. Success ()),
       deleteRealDebridTorrent = (\<lambda>h k i. True) \<rparr>"

text \<open>Two held films; the search for the first is rejected.\<close>

definition searchRejected :: collaborators where
  "searchRejected =
     \<lparr> getRealDebridTorrents = (\<lambda>h k. Success [held ''T1'' ''A.720p'', held ''T2'' ''B.720p'']),
       findAllMatchingContent = (\<lambda>h t ty. if t = ''A.720p'' then Inl ''network down'' else Inr []),
       addMagnetToRealDebrid = (\<lambda>h k mg. Success ()),
       deleteRealDebridTorrent = (\<lambda>h k i. True) \<rparr>"

text \<open>
  Two held films; the search finds two better candidates for each, and the submission of
  the magnet \<open>mB\<close> fails.
\<close>

definition submissionFails :: collaborators where
  "submissionFails =
     \<lparr> getRealDebridTorrents = (\<lambda>h k. Success [held ''T1'' ''A.720p'', held ''T2'' ''B.720p'']),
       findAllMatchingContent =
         (\<lambda>h t ty. Inr [candidate t ''1080p'' ''mA'', candidate t ''2160p'' ''mB'']),
       addMagnetToRealDebrid = (\<lambda>h k mg. if mg = ''mB'' then Failure ''Failed to add magnet'' else Success ()),
       deleteRealDebridTorrent = (\<lambda>h k i. True) \<rparr>"

section \<open>The matcher: lengths\<close>

text \<open>
  A match never ends before the position it started at, and it consumes at least
  \<open>minLen\<close> code units.
\<close>

lemma greedy_len:
  "(p', s', c') \<in> set (greedy ic a lo hi p c s) \<Longrightarrow> length s' + lo \<le> length s"
proof (induction s arbitrary: lo hi p)
  case Nil
  then show ?case by (simp split: if_splits)
next
  case (Cons x xs)
  then show ?case by (fastforce split: if_splits)
qed

lemma lazy_len:
  "(p', s', c') \<in> set (lazy ic a p c s) \<Longrightarrow> length s' \<le> length s"
  by (induction s arbitrary: p) (fastforce split: if_splits)+

lemma matcher_len:
  "(p', s', c') \<in> set (matcher ic r (p, s, c)) \<Longrightarrow> length s' + minLen r \<le> length s"
proof (induction r arbitrary: p s c p' s' c')
  case (Atom a)
  then show ?case by (auto split: list.splits if_splits)
next
  case (Cat r1 r2)
  from Cat.prems obtain p1 s1 c1 where
    a: "(p1, s1, c1) \<in> set (matcher ic r1 (p, s, c))" and
    b: "(p', s', c') \<in> set (matcher ic r2 (p1, s1, c1))"
    by auto
  from Cat.IH(1)[OF a] Cat.IH(2)[OF b] show ?case by simp
next
  case (Or r1 r2)
  then show ?case by fastforce
next
  case (Opt r)
  then show ?case by fastforce
next
  case (Group k r)
  then show ?case by fastforce
qed (auto dest: greedy_len lazy_len split: if_splits)

lemma removeMatches_len: "length (removeMatches ic r p s) \<le> length s"
proof (induction ic r p s rule: removeMatches.induct)
  case (1 ic r p)
  then show ?case by simp
next
  case (2 ic r p x xs)
  show ?case
  proof (cases "matcher ic r (p, x # xs, [])")
    case Nil
    with 2(1) show ?thesis by simp
  next
    case (Cons st sts)
    obtain p' s' c' where st: "st = (p', s', c')" by (cases st) auto
    show ?thesis
    proof (cases "length s' < length (x # xs)")
      case True
      from 2(2)[OF Cons st[symmetric] refl True] True Cons st show ?thesis by simp
    next
      case False
      from 2(3)[OF Cons st[symmetric] refl False] False Cons st show ?thesis by simp
    qed
  qed
qed

lemma removeMatches_no_match: "exec ic r p s = None \<Longrightarrow> removeMatches ic r p s = s"
  by (induction s arbitrary: p) (auto split: list.splits)

lemma removeMatches_shorter:
  assumes "0 < minLen r"
  shows "exec ic r p s \<noteq> None \<Longrightarrow> length (removeMatches ic r p s) < length s"
proof (induction s arbitrary: p)
  case Nil
  show ?case
  proof (cases "matcher ic r (p, [], [])")
    case Nil
    with Nil.prems show ?thesis by simp
  next
    case (Cons st sts)
    obtain p' s' c' where st: "st = (p', s', c')" by (cases st) auto
    have "(p', s', c') \<in> set (matcher ic r (p, [], []))" using Cons st by simp
    from matcher_len[OF this] assms show ?thesis by simp
  qed
next
  case (Cons x xs)
  show ?case
  proof (cases "matcher ic r (p, x # xs, [])")
    case Nil
    with Cons show ?thesis by simp
  next
    case (Cons st sts)
    obtain p' s' c' where st: "st = (p', s', c')" by (cases st) auto
    have "(p', s', c') \<in> set (matcher ic r (p, x # xs, []))" using Cons st by simp
    from matcher_len[OF this] assms have lt: "length s' < length (x # xs)" by simp
    have "length (removeMatches ic r p' s') \<le> length s'" by (rule removeMatches_len)
    with lt Cons st show ?thesis by simp
  qed
qed

section \<open>Searching and removing\<close>

lemma exec_found: "matcher ic r (p, s, []) \<noteq> [] \<Longrightarrow> exec ic r p s \<noteq> None"
  by (cases s) (auto split: list.splits)

lemma exec_later:
  assumes "\<And>p. matcher ic r (p, s, []) \<noteq> []"
  shows "exec ic r p (a @ s) \<noteq> None"
proof (induction a arbitrary: p)
  case Nil
  show ?case using exec_found[OF assms] by simp
next
  case (Cons x a)
  show ?case using Cons[of "Some x"] by (auto split: list.splits)
qed

lemma exec_mono:
  assumes "\<And>p s. matcher ic r1 (p, s, []) \<noteq> [] \<Longrightarrow> matcher ic r2 (p, s, []) \<noteq> []"
  shows "exec ic r1 p s \<noteq> None \<Longrightarrow> exec ic r2 p s \<noteq> None"
proof (induction s arbitrary: p)
  case Nil
  then show ?case using assms[of p "[]"] by (auto split: list.splits)
next
  case (Cons x xs)
  show ?case
  proof (cases "matcher ic r1 (p, x # xs, [])")
    case Nil
    with Cons show ?thesis by (auto split: list.splits)
  next
    case (Cons st sts)
    then have "matcher ic r2 (p, x # xs, []) \<noteq> []" using assms[of p "x # xs"] by simp
    then show ?thesis by (auto split: list.splits)
  qed
qed

lemma trim_len: "length (trim s) \<le> length s"
  unfolding trim_def
  by (metis length_dropWhile_le length_rev order_trans)

lemma trim_idem: "trim (trim s) = trim s"
proof -
  define u where "u = dropWhile isWhiteSpace s"
  define v where "v = dropWhile isWhiteSpace (rev u)"
  have v_idem: "dropWhile isWhiteSpace v = v"
    unfolding v_def by simp
  have "dropWhile isWhiteSpace (rev v) = rev v"
  proof (cases "v = []")
    case True
    then show ?thesis by simp
  next
    case False
    have "rev u = takeWhile isWhiteSpace (rev u) @ v"
      by (simp add: v_def)
    then have "last (rev u) = last v"
      using False by (metis last_appendR)
    moreover have u: "u \<noteq> []"
      using False v_def by auto
    ultimately have "last v = hd u"
      by (simp add: last_rev)
    moreover have "\<not> isWhiteSpace (hd u)"
      using u unfolding u_def by (rule hd_dropWhile)
    ultimately have "\<not> isWhiteSpace (hd (rev v))"
      using False by (simp add: hd_rev)
    then show ?thesis
      using False by (cases "rev v") auto
  qed
  then show ?thesis
    unfolding trim_def u_def[symmetric] v_def[symmetric] by (simp add: v_idem)
qed

section \<open>Title cleaning: theorems\<close>

lemma after5: "length (trim s) \<le> length s"
  by (rule trim_len)

lemma after4: "length (trim (removeMatches i5 r5 None s)) \<le> length s"
  by (rule order_trans[OF trim_len removeMatches_len])

lemma after3: "length (trim (removeMatches i5 r5 None (removeMatches i4 r4 None s))) \<le> length s"
  by (rule order_trans[OF after4 removeMatches_len])

lemma after2:
  "length (trim (removeMatches i5 r5 None (removeMatches i4 r4 None
     (removeMatches i3 r3 None s)))) \<le> length s"
  by (rule order_trans[OF after3 removeMatches_len])

lemma after1:
  "length (trim (removeMatches i5 r5 None (removeMatches i4 r4 None
     (removeMatches i3 r3 None (removeMatches i2 r2 None s))))) \<le> length s"
  by (rule order_trans[OF after2 removeMatches_len])

lemma minLen_patterns:
  "0 < minLen bracketGroup" "0 < minLen parenGroup" "0 < minLen fourDigits"
  "0 < minLen sourceTag" "0 < minLen codecTag"
  by (simp_all add: bracketGroup_def parenGroup_def fourDigits_def sourceTag_def codecTag_def)

lemma removeMatches_test:
  assumes "0 < minLen r"
  shows "test ic r s \<Longrightarrow> length (removeMatches ic r None s) < length s"
    and "\<not> test ic r s \<Longrightarrow> removeMatches ic r None s = s"
proof -
  show "test ic r s \<Longrightarrow> length (removeMatches ic r None s) < length s"
    using removeMatches_shorter[OF assms, of ic None s] by (simp add: test_def)
  show "removeMatches ic r None s = s" if "\<not> test ic r s"
  proof -
    from that have "exec ic r None s = None"
      unfolding test_def by blast
    then show ?thesis by (rule removeMatches_no_match)
  qed
qed

lemma cleanTitle_shorter: "removable u \<Longrightarrow> length (cleanTitle u) < length u"
proof -
  assume r: "removable u"
  note sh = removeMatches_test(1) and id = removeMatches_test(2)
  consider (1) "test False bracketGroup u"
    | (2) "\<not> test False bracketGroup u" "test False parenGroup u"
    | (3) "\<not> test False bracketGroup u" "\<not> test False parenGroup u" "test False fourDigits u"
    | (4) "\<not> test False bracketGroup u" "\<not> test False parenGroup u" "\<not> test False fourDigits u"
          "test True sourceTag u"
    | (5) "\<not> test False bracketGroup u" "\<not> test False parenGroup u" "\<not> test False fourDigits u"
          "\<not> test True sourceTag u" "test True codecTag u"
    using r unfolding removable_def by blast
  then show ?thesis
  proof cases
    case 1
    from sh[OF minLen_patterns(1) 1] show ?thesis
      unfolding cleanTitle_def by (rule le_less_trans[OF after1])
  next
    case 2
    from sh[OF minLen_patterns(2) 2(2)] show ?thesis
      unfolding cleanTitle_def id[OF minLen_patterns(1) 2(1)]
      by (rule le_less_trans[OF after2])
  next
    case 3
    from sh[OF minLen_patterns(3) 3(3)] show ?thesis
      unfolding cleanTitle_def id[OF minLen_patterns(1) 3(1)] id[OF minLen_patterns(2) 3(2)]
      by (rule le_less_trans[OF after3])
  next
    case 4
    from sh[OF minLen_patterns(4) 4(4)] show ?thesis
      unfolding cleanTitle_def id[OF minLen_patterns(1) 4(1)] id[OF minLen_patterns(2) 4(2)]
        id[OF minLen_patterns(3) 4(3)]
      by (rule le_less_trans[OF after4])
  next
    case 5
    from sh[OF minLen_patterns(5) 5(5)] show ?thesis
      unfolding cleanTitle_def id[OF minLen_patterns(1) 5(1)] id[OF minLen_patterns(2) 5(2)]
        id[OF minLen_patterns(3) 5(3)] id[OF minLen_patterns(4) 5(4)]
      by (rule le_less_trans[OF after5])
  qed
qed

lemma cleanTitle_stable: "\<not> removable u \<Longrightarrow> cleanTitle u = trim u"
  unfolding removable_def cleanTitle_def
  by (simp add: removeMatches_test(2)[OF minLen_patterns(1)] removeMatches_test(2)[OF minLen_patterns(2)]
      removeMatches_test(2)[OF minLen_patterns(3)] removeMatches_test(2)[OF minLen_patterns(4)]
      removeMatches_test(2)[OF minLen_patterns(5)])

text \<open>
  C5, as the specification states it, fails: removing a codec tag can join the text around
  it into a new four-digit run, which only a second cleaning removes. The label
  \<open>Movie.20HEVC20\<close> cleans to \<open>Movie.2020\<close>, and that to \<open>Movie.\<close>.
\<close>

theorem cleanTitle_not_idempotent_counterexample:
  "cleanTitle ''Movie.20HEVC20'' = ''Movie.2020''
   \<and> cleanTitle (cleanTitle ''Movie.20HEVC20'') = ''Movie.''
   \<and> cleanTitle (cleanTitle ''Movie.20HEVC20'') \<noteq> cleanTitle ''Movie.20HEVC20''"
  by code_simp

text \<open>
  C5, amended. For every string \<open>t\<close>, \<open>cleanTitle (cleanTitle t)\<close> equals
  \<open>cleanTitle t\<close> exactly when none of the five patterns that the cleaning removes has a
  match in \<open>cleanTitle t\<close>.
\<close>

theorem cleanTitle_idempotent_iff:
  "cleanTitle (cleanTitle t) = cleanTitle t \<longleftrightarrow> \<not> removable (cleanTitle t)"
proof
  assume eq: "cleanTitle (cleanTitle t) = cleanTitle t"
  show "\<not> removable (cleanTitle t)"
  proof
    assume "removable (cleanTitle t)"
    from cleanTitle_shorter[OF this] eq show False by simp
  qed
next
  assume "\<not> removable (cleanTitle t)"
  then have "cleanTitle (cleanTitle t) = trim (cleanTitle t)"
    by (rule cleanTitle_stable)
  also have "\<dots> = cleanTitle t"
    unfolding cleanTitle_def by (rule trim_idem)
  finally show "cleanTitle (cleanTitle t) = cleanTitle t" .
qed


theorem cleanTitle_idempotent_iff_witness:
  "\<not> removable (cleanTitle ''Movie.Title.2023.1080p.BluRay.x264-GROUP'')
   \<and> cleanTitle (cleanTitle ''Movie.Title.2023.1080p.BluRay.x264-GROUP'')
       = cleanTitle ''Movie.Title.2023.1080p.BluRay.x264-GROUP''"
proof -
  have "\<not> removable (cleanTitle ''Movie.Title.2023.1080p.BluRay.x264-GROUP'')"
    by code_simp
  with cleanTitle_idempotent_iff[of "''Movie.Title.2023.1080p.BluRay.x264-GROUP''"]
  show ?thesis by simp
qed

section \<open>Metadata extraction: theorems\<close>

text \<open>
  C6, as the specification states it, fails on the title: the cleaning removes the two
  four-digit runs (the year among them) and the tags, and keeps the dots and the release
  group, so the cleaned title is not \<open>Movie Title 2023\<close>.
\<close>

theorem extract_title_counterexample:
  "title (extractMetadataFromFilename ''Movie.Title.2023.1080p.BluRay.x264-GROUP'')
     \<noteq> ''Movie Title 2023''"
  by code_simp

text \<open>
  C6, amended. Metadata extraction on the label
  \<open>Movie.Title.2023.1080p.BluRay.x264-GROUP\<close> yields the cleaned title
  \<open>Movie.Title....-GROUP\<close>, quality \<open>1080p\<close>, size \<open>Unknown\<close>, content type
  \<open>movie\<close>, HDR tier \<open>SDR\<close> and codec \<open>H.264\<close>.
\<close>

theorem extract_example:
  "extractMetadataFromFilename ''Movie.Title.2023.1080p.BluRay.x264-GROUP'' =
     \<lparr> title = ''Movie.Title....-GROUP'', quality = ''1080p'', size' = ''Unknown'',
       type' = ''movie'', hdr = Some ''SDR'', codec = Some ''H.264'' \<rparr>"
  by code_simp

lemma upper_dv:
  "upperChar (CHR ''d'') = CHR ''D''" "upperChar (CHR ''D'') = CHR ''D''"
  "upperChar (CHR ''v'') = CHR ''V''" "upperChar (CHR ''V'') = CHR ''V''"
  by (simp_all add: upperChar_def isLowerAZ_def)

lemma dv_matches:
  assumes "d = CHR ''d'' \<or> d = CHR ''D''" and "v = CHR ''v'' \<or> v = CHR ''V''"
  shows "matcher True dolbyVisionPattern (p, d # v # b, []) \<noteq> []"
  using assms by (auto simp: dolbyVisionPattern_def upper_dv)

text \<open>
  C10. Every label that contains the two letters \<open>dv\<close>, in either case each, is
  classified as \<open>Dolby Vision\<close>, whatever else it contains: so is the label
  \<open>Movie.2023.DVDRip.x264\<close>, which carries no HDR information.
\<close>

theorem dv_is_dolby_vision:
  assumes "d = CHR ''d'' \<or> d = CHR ''D''" and "v = CHR ''v'' \<or> v = CHR ''V''"
  shows "extractHDRInfo (a @ d # v # b) = ''Dolby Vision''"
proof -
  have "test True dolbyVisionPattern (a @ d # v # b)"
    unfolding test_def by (rule exec_later) (rule dv_matches[OF assms])
  then show ?thesis by (simp add: extractHDRInfo_def)
qed

theorem dv_is_dolby_vision_witness:
  "extractHDRInfo ''Movie.2023.DVDRip.x264'' = ''Dolby Vision''"
  using dv_is_dolby_vision[of "CHR ''D''" "CHR ''V''" "''Movie.2023.''" "''DRip.x264''"]
  by simp

section \<open>Quality ranking: theorems\<close>

text \<open>
  C1. For all quality values \<open>n\<close>, \<open>c\<close> and \<open>p\<close> (the strings of the quality table among
  them), \<open>isBetterQuality n c p\<close> is true if and only if the rank of \<open>n\<close> is above the
  rank of \<open>c\<close> and, in addition, the rank of \<open>c\<close> is below the rank of \<open>p\<close> or the rank
  of \<open>n\<close> is at most the rank of \<open>p\<close>.
\<close>

theorem isBetterQuality_iff:
  "isBetterQuality n c p \<longleftrightarrow>
     getQualityRank n > getQualityRank c
     \<and> (getQualityRank c < getQualityRank p \<or> getQualityRank n \<le> getQualityRank p)"
  by (simp add: isBetterQuality_def Let_def)

text \<open>
  C2, as the specification states it, fails on its second instance: with the held quality
  1080p equal to the preferred 1080p, the held quality is not below the preferred one and
  2160p exceeds it, so \<open>isBetterQuality\<close> returns false.
\<close>

theorem isBetterQuality_at_ceiling_counterexample:
  "\<not> isBetterQuality (Some ''2160p'') (Some ''1080p'') (Some ''1080p'')"
  by code_simp

text \<open>
  C2, amended. \<open>isBetterQuality('1080p','720p','1080p')\<close> returns true,
  \<open>isBetterQuality('2160p','1080p','1080p')\<close> returns false,
  \<open>isBetterQuality('2160p','1080p','720p')\<close> returns false, and a held quality below
  the preferred one allows the overshoot: \<open>isBetterQuality('2160p','720p','1080p')\<close>
  returns true.
\<close>

theorem isBetterQuality_instances:
  "isBetterQuality (Some ''1080p'') (Some ''720p'') (Some ''1080p'')
   \<and> isBetterQuality (Some ''2160p'') (Some ''1080p'') (Some ''1080p'') = False
   \<and> isBetterQuality (Some ''2160p'') (Some ''1080p'') (Some ''720p'') = False
   \<and> isBetterQuality (Some ''2160p'') (Some ''720p'') (Some ''1080p'')"
  by code_simp

section \<open>Preference matching: theorems\<close>

text \<open>
  Every record that the extractor builds carries an HDR tier, one of five strings, none of
  them empty; \<open>truthy (hdr m)\<close> says of a record \<open>m\<close> that it carries one.
\<close>

lemma extractHDRInfo_tier:
  "extractHDRInfo t \<in> set [''Dolby Vision'', ''HDR10+'', ''HDR10'', ''HDR'', ''SDR'']"
  by (simp add: extractHDRInfo_def Let_def)

lemma extracted_has_tier: "truthy (hdr (extractMetadataFromFilename f))"
  using extractHDRInfo_tier[of f]
  by (auto simp: extractMetadataFromFilename_def truthy_def)

text \<open>
  C7. For every metadata record whose \<open>hdr\<close> field is not \<open>SDR\<close> and every
  preferences object with \<open>hdrPreference\<close> equal to \<open>sdr-only\<close>,
  \<open>matchesPreferences\<close> returns false, and the result does not depend on the size field
  of the record or on the \<open>maxSize\<close> field of the preferences: it is false for every
  size \<open>s\<close> and every cap, so the size-cap clause is never reached. A metadata record
  carries an HDR tier (first hypothesis), as every record of the extractor does.
\<close>

theorem sdr_only_rejects_hdr:
  assumes "truthy (hdr m)" and "hdr m \<noteq> Some ''SDR''"
    and "hdrPreference prefs = Some ''sdr-only''"
  shows "\<not> matchesPreferences (m\<lparr>size' := s\<rparr>) (prefs\<lparr>maxSize := cap\<rparr>)
         \<and> \<not> matchesPreferences m prefs"
  using assms by (simp add: matchesPreferences_def Let_def)

text \<open>
  The witness is the record that the extractor builds from an HDR10 release name, given a
  size of 900 GB under a cap of 1 GB.
\<close>

theorem sdr_only_rejects_hdr_witness:
  "truthy (hdr (extractMetadataFromFilename ''Film.2160p.HDR10.x265''))
   \<and> hdr (extractMetadataFromFilename ''Film.2160p.HDR10.x265'') = Some ''HDR10''
   \<and> hdr (extractMetadataFromFilename ''Film.2160p.HDR10.x265'') \<noteq> Some ''SDR''
   \<and> hdrPreference (samplePreferences\<lparr>hdrPreference := Some ''sdr-only''\<rparr>) = Some ''sdr-only''
   \<and> \<not> matchesPreferences
         ((extractMetadataFromFilename ''Film.2160p.HDR10.x265'')\<lparr>size' := ''900 GB''\<rparr>)
         (samplePreferences\<lparr>hdrPreference := Some ''sdr-only'', maxSize := Some ''1 GB''\<rparr>)
   \<and> \<not> matchesPreferences (extractMetadataFromFilename ''Film.2160p.HDR10.x265'')
         (samplePreferences\<lparr>hdrPreference := Some ''sdr-only''\<rparr>)"
proof -
  have h: "hdr (extractMetadataFromFilename ''Film.2160p.HDR10.x265'') = Some ''HDR10''"
    by code_simp
  have a: "truthy (hdr (extractMetadataFromFilename ''Film.2160p.HDR10.x265''))"
    by (simp add: h truthy_def)
  have b: "hdr (extractMetadataFromFilename ''Film.2160p.HDR10.x265'') \<noteq> Some ''SDR''"
    by (simp add: h)
  have c: "hdrPreference (samplePreferences\<lparr>hdrPreference := Some ''sdr-only''\<rparr>) = Some ''sdr-only''"
    by simp
  from sdr_only_rejects_hdr[OF a b c, of "''900 GB''" "Some ''1 GB''"] a b c h
  show ?thesis by simp
qed

text \<open>
  The first hypothesis is the guard of the source,
  \<^verbatim>\<open>metadata.hdr && metadata.hdr !== 'SDR'\<close>: an object without an \<open>hdr\<close> field,
  which is not a metadata record of the extractor, is not counted as HDR content.
\<close>

lemma absent_hdr_not_hdr_content:
  "matchesPreferences (candidate ''Film.1080p'' ''1080p'' ''mA'')
     (samplePreferences\<lparr>hdrPreference := Some ''sdr-only''\<rparr>)"
  by code_simp

text \<open>
  C9. The size strings \<open>1024 MB\<close> and \<open>1 GB\<close> convert to the same number of
  gigabytes, so under every preferences object a record passes
  \<open>matchesOtherPreferences\<close> with the one size exactly when it passes with the other.
  (Both values, 1024 and 1, and the quotient 1024 / 1024 are exact in binary floating
  point.)
\<close>

theorem size_1024MB_equals_1GB:
  "convertSizeToGB (Some ''1024 MB'') = convertSizeToGB (Some ''1 GB'')
   \<and> matchesOtherPreferences (m\<lparr>size' := ''1024 MB''\<rparr>) prefs
       = matchesOtherPreferences (m\<lparr>size' := ''1 GB''\<rparr>) prefs"
proof -
  have a: "convertSizeToGB (Some ''1024 MB'') = 1" by code_simp
  have b: "convertSizeToGB (Some ''1 GB'') = 1" by code_simp
  show ?thesis by (simp add: a b matchesOtherPreferences_def Let_def split: option.split)
qed

section \<open>Selection for a show: theorems\<close>

text \<open>
  A title with an episode marker \<^verbatim>\<open>S<NN>E<NN>\<close> also has the season marker
  \<^verbatim>\<open>S<NN>\<close>, so the filter returns at the season test and never reaches the episode
  test; and the grouping files every such title under an individual-episode key.
\<close>

lemma episode_is_season:
  "matcher True episodePattern (p, s, []) \<noteq> [] \<Longrightarrow> matcher True seasonPackPattern (p, s, []) \<noteq> []"
  by (auto simp: episodePattern_def seasonPackPattern_def)

lemma episode_test_season: "test True episodePattern t \<Longrightarrow> test True seasonPackPattern t"
  unfolding test_def by (rule exec_mono) (rule episode_is_season)

lemma episode_kept:
  "completeSeasons prefs \<Longrightarrow> test True episodePattern (title m) \<Longrightarrow>
     showFilter prefs m = matchesPreferences m prefs"
  by (simp add: showFilter_def episode_test_season)









text \<open>
  What the filter does with an episode entry: with \<open>completeSeasons\<close> set, the
  candidate \<open>Show.S01E02.1080p\<close> passes it and is the candidate selected. The episode
  test of the source, under the comment \<^verbatim>\<open>Skip individual episodes if complete
  seasons are preferred\<close>, is never reached (lemma \<open>episode_kept\<close>).
\<close>

lemma episode_entry_selected:
  "showFilter samplePreferences (candidate ''Show.S01E02.1080p'' ''1080p'' ''mA'')
   \<and> findBestQualityMatchForShow [candidate ''Show.S01E02.1080p'' ''1080p'' ''mA''] samplePreferences
       = [candidate ''Show.S01E02.1080p'' ''1080p'' ''mA'']"
  by code_simp

section \<open>The upgrade scanner: theorems\<close>

text \<open>
  C3, as the specification states it, fails: with one held episode and the content type
  \<open>movie\<close> as third argument, the second definition filters the episode out, counts no
  torrent and makes no search; the first counts one torrent and searches for it.
\<close>

theorem two_definitions_differ_counterexample:
  "checkForQualityUpgrades oneShowHeld ''key'' samplePreferences (Some ''movie'')
     = \<lparr> report = \<lparr> checkedTorrents = 0, upgradesFound = 0, upgradesAdded = 0, errors = [] \<rparr>,
         calls = [GetRealDebridTorrents ''key''] \<rparr>
   \<and> checkForQualityUpgrades1 oneShowHeld ''key'' samplePreferences
     = \<lparr> report = \<lparr> checkedTorrents = 1, upgradesFound = 0, upgradesAdded = 0, errors = [] \<rparr>,
         calls = [GetRealDebridTorrents ''key'',
                  FindAllMatchingContent ''Show.S01E01.720p'' ''tv''] \<rparr>
   \<and> checkForQualityUpgrades oneShowHeld ''key'' samplePreferences (Some ''movie'')
     \<noteq> checkForQualityUpgrades1 oneShowHeld ''key'' samplePreferences"
  by code_simp

lemma addUpgrades1_eq:
  "addUpgrades1 c k prefs t ttl ms st = addUpgrades c k prefs t ttl ms st"
  by (induction ms arbitrary: st) (simp_all add: Let_def split: apiResult.splits)

lemma scanTorrents1_eq: "scanTorrents1 c k prefs ts st = scanTorrents c k prefs ts st"
  by (induction ts arbitrary: st) (simp_all add: Let_def addUpgrades1_eq split: sum.splits)

text \<open>
  C3, amended. The two textual definitions of \<open>checkForQualityUpgrades\<close> produce the
  same report and the same sequence of collaborator calls, for every API key and
  preferences object, whenever the third argument is absent or empty, or every held
  torrent's file name is detected as the content type that the third argument names.
\<close>

theorem two_definitions_agree:
  assumes "\<not> truthy contentType
     \<or> (\<forall>ts. getRealDebridTorrents c [] rdApiKey = Success ts \<longrightarrow>
           (\<forall>t\<in>set ts. type' (extractMetadataFromFilename (filename t)) = the contentType))"
  shows "checkForQualityUpgrades c rdApiKey prefs contentType
           = checkForQualityUpgrades1 c rdApiKey prefs"
proof (cases "getRealDebridTorrents c [] rdApiKey")
  case (Success ts)
  have "(if truthy contentType
         then filter (\<lambda>t. type' (extractMetadataFromFilename (filename t)) = the contentType) ts
         else ts) = ts"
    using assms Success by (auto simp: filter_id_conv)
  then show ?thesis
    by (simp add: checkForQualityUpgrades_def checkForQualityUpgrades1_def Success Let_def
        scanAndCatch_def scanTorrents1_eq)
next
  case (Failure e)
  then show ?thesis
    by (simp add: checkForQualityUpgrades_def checkForQualityUpgrades1_def Let_def)
qed

theorem two_definitions_agree_witness:
  "detectContentType ''A.720p'' = ''movie'' \<and> detectContentType ''B.720p'' = ''movie''
   \<and> checkForQualityUpgrades submissionFails ''key'' samplePreferences (Some ''movie'')
       = checkForQualityUpgrades1 submissionFails ''key'' samplePreferences"
proof -
  have a: "detectContentType ''A.720p'' = ''movie''" by code_simp
  have b: "detectContentType ''B.720p'' = ''movie''" by code_simp
  have "\<forall>ts. getRealDebridTorrents submissionFails [] ''key'' = Success ts \<longrightarrow>
           (\<forall>t\<in>set ts. type' (extractMetadataFromFilename (filename t)) = the (Some ''movie''))"
    by (auto simp: submissionFails_def held_def extractMetadataFromFilename_def a b)
  then have "\<not> truthy (Some ''movie'')
     \<or> (\<forall>ts. getRealDebridTorrents submissionFails [] ''key'' = Success ts \<longrightarrow>
           (\<forall>t\<in>set ts. type' (extractMetadataFromFilename (filename t)) = the (Some ''movie'')))"
    by (rule disjI2)
  from two_definitions_agree[OF this, of samplePreferences] a b show ?thesis by simp
qed

text \<open>
  With a content type given, the second definition counts the held torrents of that type
  only; the first counts them all.
\<close>

lemma addUpgrades_checked:
  "checkedTorrents (report (addUpgrades c k prefs t ttl ms st)) = checkedTorrents (report st)"
  by (induction ms arbitrary: st) (simp_all add: Let_def split: apiResult.splits)

lemma scanTorrents_checked:
  "checkedTorrents (report (snd (scanTorrents c k prefs ts st))) = checkedTorrents (report st)"
  by (induction ts arbitrary: st) (simp_all add: Let_def addUpgrades_checked split: sum.splits)

lemma scanAndCatch_checked:
  "checkedTorrents (report (scanAndCatch c k prefs ts st)) = length ts"
proof -
  obtain ex st2 where sc:
    "scanTorrents c k prefs ts (st\<lparr>report := (report st)\<lparr>checkedTorrents := length ts\<rparr>\<rparr>) = (ex, st2)"
    by (cases "scanTorrents c k prefs ts (st\<lparr>report := (report st)\<lparr>checkedTorrents := length ts\<rparr>\<rparr>)")
      auto
  from scanTorrents_checked[of c k prefs ts "st\<lparr>report := (report st)\<lparr>checkedTorrents := length ts\<rparr>\<rparr>"]
  have "checkedTorrents (report st2) = length ts"
    by (simp add: sc)
  then show ?thesis
    by (cases ex) (simp_all add: scanAndCatch_def Let_def sc)
qed

lemma counts_of_the_two_definitions:
  assumes "getRealDebridTorrents c [] k = Success ts" and "truthy ct"
  shows "checkedTorrents (report (checkForQualityUpgrades c k prefs ct))
           = length (filter (\<lambda>t. type' (extractMetadataFromFilename (filename t)) = the ct) ts)"
    and "checkedTorrents (report (checkForQualityUpgrades1 c k prefs)) = length ts"
proof -
  show "checkedTorrents (report (checkForQualityUpgrades c k prefs ct))
           = length (filter (\<lambda>t. type' (extractMetadataFromFilename (filename t)) = the ct) ts)"
    using assms by (simp add: checkForQualityUpgrades_def Let_def scanAndCatch_checked)
  have "checkForQualityUpgrades1 c k prefs = checkForQualityUpgrades c k prefs None"
    by (simp add: checkForQualityUpgrades_def checkForQualityUpgrades1_def Let_def
        scanAndCatch_def scanTorrents1_eq truthy_def split: apiResult.splits)
  then show "checkedTorrents (report (checkForQualityUpgrades1 c k prefs)) = length ts"
    using assms(1) by (simp add: checkForQualityUpgrades_def Let_def scanAndCatch_checked truthy_def)
qed

lemma addUpgrades_shape:
  "\<exists>cs es. calls (addUpgrades c k prefs t ttl ms st) = calls st @ cs
      \<and> (\<forall>x\<in>set cs. \<not> isSearch x)
      \<and> errors (report (addUpgrades c k prefs t ttl ms st)) = errors (report st) @ es"
proof (induction ms arbitrary: st)
  case Nil
  show ?case by simp
next
  case (Cons m ms)
  show ?case
  proof (cases "addMagnetToRealDebrid c (calls st) k (magnet m)")
    case (Success d)
    let ?st3 = "(if deleteOldAfterUpgrade prefs
        then st\<lparr>calls := calls st @ [AddMagnetToRealDebrid k (magnet m)],
                 report := (report st)\<lparr>upgradesAdded := upgradesAdded (report st) + 1\<rparr>,
                 calls := calls st @ [AddMagnetToRealDebrid k (magnet m)] @ [DeleteRealDebridTorrent k (id' t)]\<rparr>
        else st\<lparr>calls := calls st @ [AddMagnetToRealDebrid k (magnet m)],
                 report := (report st)\<lparr>upgradesAdded := upgradesAdded (report st) + 1\<rparr>\<rparr>)"
    from Cons[of ?st3] obtain cs es where
      "calls (addUpgrades c k prefs t ttl ms ?st3) = calls ?st3 @ cs"
      "\<forall>x\<in>set cs. \<not> isSearch x"
      "errors (report (addUpgrades c k prefs t ttl ms ?st3)) = errors (report ?st3) @ es"
      by blast
    then show ?thesis using Success
      by (cases "deleteOldAfterUpgrade prefs") (auto simp: Let_def)
  next
    case (Failure e)
    let ?st2 = "st\<lparr>calls := calls st @ [AddMagnetToRealDebrid k (magnet m)],
         report := (report st)\<lparr>errors := errors (report st)
            @ [''Failed to upgrade '' @ ttl @ '': '' @ e]\<rparr>\<rparr>"
    from Cons[of ?st2] obtain cs es where
      "calls (addUpgrades c k prefs t ttl ms ?st2) = calls ?st2 @ cs"
      "\<forall>x\<in>set cs. \<not> isSearch x"
      "errors (report (addUpgrades c k prefs t ttl ms ?st2)) = errors (report ?st2) @ es"
      by blast
    then show ?thesis using Failure
      by (auto simp: Let_def)
  qed
qed


lemma recorded_step:
  assumes "recorded c k st" and "calls st' = calls st @ [x]"
    and "errors (report st') = errors (report st) @ es"
    and "\<And>mg e. x = AddMagnetToRealDebrid k mg \<Longrightarrow>
           addMagnetToRealDebrid c (calls st) k mg = Failure e \<Longrightarrow>
           \<exists>t. ''Failed to upgrade '' @ t @ '': '' @ e \<in> set (errors (report st) @ es)"
  shows "recorded c k st'"
  unfolding recorded_def
proof (intro allI impI)
  fix h mg e
  assume p: "prefix (h @ [AddMagnetToRealDebrid k mg]) (calls st')"
    and f: "addMagnetToRealDebrid c h k mg = Failure e"
  from p assms(2) consider
    (old) "prefix (h @ [AddMagnetToRealDebrid k mg]) (calls st)"
    | (new) "h = calls st" "x = AddMagnetToRealDebrid k mg"
    by (auto simp: prefix_snoc)
  then show "\<exists>t. ''Failed to upgrade '' @ t @ '': '' @ e \<in> set (errors (report st'))"
  proof cases
    case old
    with assms(1) f obtain t where
      "''Failed to upgrade '' @ t @ '': '' @ e \<in> set (errors (report st))"
      unfolding recorded_def by blast
    then show ?thesis using assms(3) by auto
  next
    case new
    with assms(4)[of mg e] f assms(3) show ?thesis by simp
  qed
qed

lemma recorded_same:
  "recorded c k st \<Longrightarrow> calls st' = calls st \<Longrightarrow>
     errors (report st') = errors (report st) @ es \<Longrightarrow> recorded c k st'"
  unfolding recorded_def by (metis UnCI set_append)

lemma answered_step:
  assumes "answered c cs"
    and "\<And>t ty. x = FindAllMatchingContent t ty \<Longrightarrow> \<exists>ms. findAllMatchingContent c cs t ty = Inr ms"
  shows "answered c (cs @ [x])"
  using assms unfolding answered_def by (auto simp: prefix_snoc)

lemma answered_append:
  "answered c cs \<Longrightarrow> \<forall>x\<in>set ds. \<not> isSearch x \<Longrightarrow> answered c (cs @ ds)"
proof (induction ds rule: rev_induct)
  case Nil
  then show ?case by simp
next
  case (snoc d ds)
  then have "answered c (cs @ ds)" by simp
  moreover have "\<And>t ty. d \<noteq> FindAllMatchingContent t ty" using snoc.prems(2) by auto
  ultimately have "answered c ((cs @ ds) @ [d])" by (intro answered_step) auto
  then show ?case by simp
qed

lemma recorded_addUpgrades:
  "recorded c k st \<Longrightarrow> recorded c k (addUpgrades c k prefs t ttl ms st)"
proof (induction ms arbitrary: st)
  case Nil
  then show ?case by simp
next
  case (Cons m ms)
  let ?x = "AddMagnetToRealDebrid k (magnet m)"
  show ?case
  proof (cases "addMagnetToRealDebrid c (calls st) k (magnet m)")
    case (Success d)
    let ?st2 = "st\<lparr>calls := calls st @ [?x],
                 report := (report st)\<lparr>upgradesAdded := upgradesAdded (report st) + 1\<rparr>\<rparr>"
    have r2: "recorded c k ?st2"
      by (rule recorded_step[OF Cons.prems, where x = ?x and es = "[]"]) (auto simp: Success)
    show ?thesis
    proof (cases "deleteOldAfterUpgrade prefs")
      case True
      let ?st3 = "?st2\<lparr>calls := calls ?st2 @ [DeleteRealDebridTorrent k (id' t)]\<rparr>"
      have "recorded c k ?st3"
        by (rule recorded_step[OF r2, where x = "DeleteRealDebridTorrent k (id' t)" and es = "[]"]) auto
      from Cons.IH[OF this] show ?thesis using Success True by (simp add: Let_def)
    next
      case False
      from Cons.IH[OF r2] show ?thesis using Success False by (simp add: Let_def)
    qed
  next
    case (Failure e)
    let ?st2 = "st\<lparr>calls := calls st @ [?x],
         report := (report st)\<lparr>errors := errors (report st)
            @ [''Failed to upgrade '' @ ttl @ '': '' @ e]\<rparr>\<rparr>"
    have "recorded c k ?st2"
      by (rule recorded_step[OF Cons.prems, where x = ?x
            and es = "[''Failed to upgrade '' @ ttl @ '': '' @ e]"]) (auto simp: Failure)
    from Cons.IH[OF this] show ?thesis using Failure by (simp add: Let_def)
  qed
qed

text \<open>One downloaded torrent whose search is answered: the loop goes on from a state that
  extends the one before.\<close>

lemma scanTorrents_found:
  assumes "status t = ''downloaded''"
    and "findAllMatchingContent c (calls st) (title (extractMetadataFromFilename (filename t)))
           (type' (extractMetadataFromFilename (filename t))) = Inr ms"
  shows "\<exists>st'. scanTorrents c k prefs (t # ts) st = scanTorrents c k prefs ts st'
           \<and> (\<exists>cs es. calls st' = calls st @ searchFor t # cs \<and> (\<forall>x\<in>set cs. \<not> isSearch x)
                 \<and> errors (report st') = errors (report st) @ es)
           \<and> (recorded c k st \<longrightarrow> recorded c k st')"
proof -
  let ?md = "extractMetadataFromFilename (filename t)"
  let ?st1 = "st\<lparr>calls := calls st @ [searchFor t]\<rparr>"
  obtain better where found:
    "findBetterQualityMatches c (calls st) (title ?md) (type' ?md) (quality ?md) prefs = Inr better"
    using assms(2) by (simp add: findBetterQualityMatches_def)
  have r1: "recorded c k st \<Longrightarrow> recorded c k ?st1"
    by (rule recorded_step[where x = "searchFor t" and es = "[]"]) (auto simp: searchFor_def)
  show ?thesis
  proof (cases "length better > 0 \<and> autoUpgrade prefs")
    case True
    let ?st2 = "?st1\<lparr>report := (report ?st1)\<lparr>upgradesFound :=
                             upgradesFound (report ?st1) + length better\<rparr>\<rparr>"
    let ?st' = "addUpgrades c k prefs t (title ?md) better ?st2"
    have eq: "scanTorrents c k prefs (t # ts) st = scanTorrents c k prefs ts ?st'"
      using assms(1) found True by (simp add: Let_def searchFor_def)
    from addUpgrades_shape[of c k prefs t "title ?md" better ?st2] obtain cs es where
      sh: "calls ?st' = calls ?st2 @ cs" "\<forall>x\<in>set cs. \<not> isSearch x"
        "errors (report ?st') = errors (report ?st2) @ es"
      by blast
    have "recorded c k st \<Longrightarrow> recorded c k ?st'"
    proof -
      assume "recorded c k st"
      then have "recorded c k ?st1" by (rule r1)
      then have "recorded c k ?st2" by (rule recorded_same[where es = "[]"]) auto
      then show ?thesis by (rule recorded_addUpgrades)
    qed
    with eq sh show ?thesis by (intro exI[of _ ?st']) auto
  next
    case False
    let ?st' = "(if length better > 0
       then ?st1\<lparr>report := (report ?st1)\<lparr>upgradesFound :=
                             upgradesFound (report ?st1) + length better\<rparr>\<rparr>
       else ?st1)"
    have eq: "scanTorrents c k prefs (t # ts) st = scanTorrents c k prefs ts ?st'"
      using assms(1) found False by (auto simp: Let_def searchFor_def)
    have "recorded c k st \<Longrightarrow> recorded c k ?st'"
    proof -
      assume "recorded c k st"
      then have "recorded c k ?st1" by (rule r1)
      then show ?thesis by (rule recorded_same[where es = "[]"]) auto
    qed
    with eq show ?thesis by (intro exI[of _ ?st']) auto
  qed
qed

lemma scanTorrents_rejected:
  assumes "status t = ''downloaded''"
    and "findAllMatchingContent c (calls st) (title (extractMetadataFromFilename (filename t)))
           (type' (extractMetadataFromFilename (filename t))) = Inl e"
  shows "scanTorrents c k prefs (t # ts) st = (Some e, st\<lparr>calls := calls st @ [searchFor t]\<rparr>)"
  using assms by (simp add: findBetterQualityMatches_def Let_def searchFor_def)

lemma scanTorrents_skip:
  "status t \<noteq> ''downloaded'' \<Longrightarrow> scanTorrents c k prefs (t # ts) st = scanTorrents c k prefs ts st"
  by simp


lemma scan_recorded:
  "recorded c k st \<Longrightarrow> recorded c k (snd (scanTorrents c k prefs ts st))"
proof (induction ts arbitrary: st)
  case Nil
  then show ?case by simp
next
  case (Cons t ts)
  let ?md = "extractMetadataFromFilename (filename t)"
  show ?case
  proof (cases "status t = ''downloaded''")
    case False
    with Cons show ?thesis by simp
  next
    case True
    show ?thesis
    proof (cases "findAllMatchingContent c (calls st) (title ?md) (type' ?md)")
      case (Inl e)
      have "recorded c k (st\<lparr>calls := calls st @ [searchFor t]\<rparr>)"
        by (rule recorded_step[OF Cons.prems, where x = "searchFor t" and es = "[]"])
          (auto simp: searchFor_def)
      then show ?thesis unfolding scanTorrents_rejected[OF True Inl] by simp
    next
      case (Inr ms)
      from scanTorrents_found[OF True Inr, of k prefs ts] Cons.prems obtain st' where
        "scanTorrents c k prefs (t # ts) st = scanTorrents c k prefs ts st'" "recorded c k st'"
        by blast
      with Cons.IH[of st'] show ?thesis by simp
    qed
  qed
qed

lemma scan_answered:
  "answered c (calls st) \<Longrightarrow>
     (case scanTorrents c k prefs ts st of
        (None, st') \<Rightarrow> answered c (calls st')
      | (Some e, st') \<Rightarrow>
          (\<exists>h t ty. calls st' = h @ [FindAllMatchingContent t ty]
             \<and> findAllMatchingContent c h t ty = Inl e \<and> answered c h))"
proof (induction ts arbitrary: st)
  case Nil
  then show ?case by simp
next
  case (Cons t ts)
  let ?md = "extractMetadataFromFilename (filename t)"
  show ?case
  proof (cases "status t = ''downloaded''")
    case False
    with Cons show ?thesis by simp
  next
    case True
    show ?thesis
    proof (cases "findAllMatchingContent c (calls st) (title ?md) (type' ?md)")
      case (Inl e)
      show ?thesis
        unfolding scanTorrents_rejected[OF True Inl]
        using Inl Cons.prems by (simp add: searchFor_def)
    next
      case (Inr ms)
      from scanTorrents_found[OF True Inr, of k prefs ts] obtain st' cs where
        eq: "scanTorrents c k prefs (t # ts) st = scanTorrents c k prefs ts st'"
        and cs: "calls st' = calls st @ searchFor t # cs" "\<forall>x\<in>set cs. \<not> isSearch x"
        by blast
      have "answered c (calls st @ [searchFor t])"
        by (rule answered_step[OF Cons.prems]) (auto simp: searchFor_def Inr)
      then have "answered c ((calls st @ [searchFor t]) @ cs)"
        using cs(2) by (rule answered_append)
      then have "answered c (calls st')" using cs(1) by simp
      from Cons.IH[OF this] show ?thesis unfolding eq .
    qed
  qed
qed

lemma scan_all_searched:
  assumes "\<And>h t ty. \<exists>ms. findAllMatchingContent c h t ty = Inr ms"
  shows "fst (scanTorrents c k prefs ts st) = None
     \<and> filter isSearch (calls (snd (scanTorrents c k prefs ts st)))
         = filter isSearch (calls st) @ map searchFor (filter (\<lambda>t. status t = ''downloaded'') ts)"
proof (induction ts arbitrary: st)
  case Nil
  then show ?case by simp
next
  case (Cons t ts)
  let ?md = "extractMetadataFromFilename (filename t)"
  show ?case
  proof (cases "status t = ''downloaded''")
    case False
    with Cons show ?thesis by simp
  next
    case True
    from assms obtain ms where
      Inr: "findAllMatchingContent c (calls st) (title ?md) (type' ?md) = Inr ms"
      by blast
    from scanTorrents_found[OF True Inr, of k prefs ts] obtain st' cs where
      eq: "scanTorrents c k prefs (t # ts) st = scanTorrents c k prefs ts st'"
      and cs: "calls st' = calls st @ searchFor t # cs" "\<forall>x\<in>set cs. \<not> isSearch x"
      by blast
    have "filter isSearch cs = []" using cs(2) by (simp add: filter_empty_conv)
    then have "filter isSearch (calls st') = filter isSearch (calls st) @ [searchFor t]"
      using cs(1) by (simp add: searchFor_def)
    with Cons[of st'] True show ?thesis unfolding eq by simp
  qed
qed

lemma initial_invariants:
  "recorded c k \<lparr>report = r, calls = [GetRealDebridTorrents k]\<rparr>"
  "answered c [GetRealDebridTorrents k]"
  by (auto simp: recorded_def answered_def prefix_def Cons_eq_append_conv)

text \<open>
  C8, as the specification states it, fails: the \<^verbatim>\<open>try\<close> encloses the whole loop,
  so an exception while processing one held torrent ends the scan. With two downloaded
  torrents and the search for the first rejected, the error is recorded and the second
  torrent is never searched.
\<close>

theorem scan_aborts_counterexample:
  "getRealDebridTorrents searchRejected [] ''key''
     = Success [held ''T1'' ''A.720p'', held ''T2'' ''B.720p'']
   \<and> checkForQualityUpgrades searchRejected ''key'' samplePreferences None
     = \<lparr> report = \<lparr> checkedTorrents = 2, upgradesFound = 0, upgradesAdded = 0,
                    errors = [''Quality upgrade check error: network down''] \<rparr>,
         calls = [GetRealDebridTorrents ''key'', FindAllMatchingContent ''A.720p'' ''movie''] \<rparr>
   \<and> searchFor (held ''T2'' ''B.720p'')
       \<notin> set (calls (checkForQualityUpgrades searchRejected ''key'' samplePreferences None))"
  by code_simp

text \<open>
  C8, amended. In \<open>checkForQualityUpgrades\<close>, the failure of a submission is recorded in
  the error list of the result and scanning continues: every failed submission has its
  message in the list, and when no search is rejected every downloaded torrent of the
  snapshot (of the requested content type) is searched, in order, whatever the submissions
  answer. A rejected search is recorded too, as the last entry of the list, and it ends
  the scan: no call follows it, so the torrents after it are not checked.
\<close>

theorem scan_failure_handling:
  assumes final: "final = checkForQualityUpgrades c k prefs ct"
  shows
    "(\<forall>h mg e. prefix (h @ [AddMagnetToRealDebrid k mg]) (calls final) \<longrightarrow>
        addMagnetToRealDebrid c h k mg = Failure e \<longrightarrow>
        (\<exists>t. ''Failed to upgrade '' @ t @ '': '' @ e \<in> set (errors (report final))))
     \<and> ((\<forall>h t ty. \<exists>ms. findAllMatchingContent c h t ty = Inr ms) \<longrightarrow>
        (\<forall>ts. getRealDebridTorrents c [] k = Success ts \<longrightarrow>
           filter isSearch (calls final)
             = map searchFor
                 (filter (\<lambda>t. status t = ''downloaded'')
                    (if truthy ct
                     then filter (\<lambda>t. type' (extractMetadataFromFilename (filename t)) = the ct) ts
                     else ts))))
     \<and> (\<forall>h t ty e. prefix (h @ [FindAllMatchingContent t ty]) (calls final) \<longrightarrow>
          findAllMatchingContent c h t ty = Inl e \<longrightarrow>
          calls final = h @ [FindAllMatchingContent t ty]
          \<and> errors (report final) \<noteq> []
          \<and> last (errors (report final)) = ''Quality upgrade check error: '' @ e)"
proof (cases "getRealDebridTorrents c [] k")
  case (Failure e0)
  then have f: "final = \<lparr>report = initialResults\<lparr>errors := errors initialResults
        @ [''Failed to get current torrents'']\<rparr>, calls = [GetRealDebridTorrents k]\<rparr>"
    by (simp add: final checkForQualityUpgrades_def Let_def)
  show ?thesis
    using Failure by (auto simp: f prefix_def Cons_eq_append_conv)
next
  case (Success ts)
  define ts' where "ts' = (if truthy ct
      then filter (\<lambda>t. type' (extractMetadataFromFilename (filename t)) = the ct) ts else ts)"
  define st0 where "st0 = \<lparr>report = initialResults\<lparr>checkedTorrents := length ts'\<rparr>,
      calls = [GetRealDebridTorrents k]\<rparr>"
  obtain ex st2 where sc: "scanTorrents c k prefs ts' st0 = (ex, st2)"
    by (cases "scanTorrents c k prefs ts' st0") auto
  have fin: "final = (case ex of None \<Rightarrow> st2
      | Some e \<Rightarrow> st2\<lparr>report := (report st2)\<lparr>errors := errors (report st2)
              @ [''Quality upgrade check error: '' @ e]\<rparr>\<rparr>)"
    using sc by (simp add: final checkForQualityUpgrades_def Let_def Success scanAndCatch_def
        ts'_def st0_def split: option.splits)
  have calls_fin: "calls final = calls st2"
    by (simp add: fin split: option.splits)
  have "recorded c k st0" "answered c (calls st0)"
    by (simp_all add: st0_def initial_invariants)
  from scan_recorded[OF this(1), of prefs ts'] scan_answered[OF this(2), of k prefs ts']
  have rec2: "recorded c k st2"
    and ans2: "case ex of None \<Rightarrow> answered c (calls st2)
      | Some e \<Rightarrow> (\<exists>h t ty. calls st2 = h @ [FindAllMatchingContent t ty]
             \<and> findAllMatchingContent c h t ty = Inl e \<and> answered c h)"
    by (simp_all add: sc)
  have "recorded c k final"
    by (cases ex) (auto simp: fin rec2 intro: recorded_same[OF rec2])
  then have part1: "\<forall>h mg e. prefix (h @ [AddMagnetToRealDebrid k mg]) (calls final) \<longrightarrow>
        addMagnetToRealDebrid c h k mg = Failure e \<longrightarrow>
        (\<exists>t. ''Failed to upgrade '' @ t @ '': '' @ e \<in> set (errors (report final)))"
    unfolding recorded_def by blast
  have part2: "filter isSearch (calls final)
      = map searchFor (filter (\<lambda>t. status t = ''downloaded'') ts')"
    if "\<forall>h t ty. \<exists>ms. findAllMatchingContent c h t ty = Inr ms"
  proof -
    from that have "\<And>h t ty. \<exists>ms. findAllMatchingContent c h t ty = Inr ms" by blast
    from scan_all_searched[OF this, of k prefs ts' st0]
    have "filter isSearch (calls st2)
        = filter isSearch (calls st0) @ map searchFor (filter (\<lambda>t. status t = ''downloaded'') ts')"
      by (simp add: sc)
    moreover have "filter isSearch (calls st0) = []"
      by (simp add: st0_def)
    ultimately show ?thesis by (simp add: calls_fin)
  qed
  have part3: "calls final = h @ [FindAllMatchingContent t ty]
          \<and> errors (report final) \<noteq> []
          \<and> last (errors (report final)) = ''Quality upgrade check error: '' @ e"
    if p: "prefix (h @ [FindAllMatchingContent t ty]) (calls final)"
      and r: "findAllMatchingContent c h t ty = Inl e" for h t ty e
  proof (cases ex)
    case None
    with ans2 have "answered c (calls final)" by (simp add: calls_fin)
    with p r show ?thesis unfolding answered_def by fastforce
  next
    case (Some e')
    with ans2 obtain h' t' ty' where
      c2: "calls st2 = h' @ [FindAllMatchingContent t' ty']"
      and r': "findAllMatchingContent c h' t' ty' = Inl e'" and a: "answered c h'"
      by auto
    from p have "h @ [FindAllMatchingContent t ty] = h' @ [FindAllMatchingContent t' ty']
        \<or> prefix (h @ [FindAllMatchingContent t ty]) h'"
      by (simp add: calls_fin c2 prefix_snoc)
    then show ?thesis
    proof
      assume "h @ [FindAllMatchingContent t ty] = h' @ [FindAllMatchingContent t' ty']"
      then have "h = h'" "t = t'" "ty = ty'" by auto
      with r r' have "e = e'" by simp
      then show ?thesis
        using \<open>h = h'\<close> \<open>t = t'\<close> \<open>ty = ty'\<close> by (simp add: fin Some c2)
    next
      assume "prefix (h @ [FindAllMatchingContent t ty]) h'"
      with a r show ?thesis unfolding answered_def by fastforce
    qed
  qed
  have p2: "(\<forall>h t ty. \<exists>ms. findAllMatchingContent c h t ty = Inr ms) \<longrightarrow>
        (\<forall>ts. getRealDebridTorrents c [] k = Success ts \<longrightarrow>
           filter isSearch (calls final)
             = map searchFor
                 (filter (\<lambda>t. status t = ''downloaded'')
                    (if truthy ct
                     then filter (\<lambda>t. type' (extractMetadataFromFilename (filename t)) = the ct) ts
                     else ts)))"
  proof (intro impI allI)
    fix ts0
    assume never: "\<forall>h t ty. \<exists>ms. findAllMatchingContent c h t ty = Inr ms"
      and "getRealDebridTorrents c [] k = Success ts0"
    then have "ts0 = ts" using Success by simp
    with part2[OF never] show "filter isSearch (calls final)
             = map searchFor
                 (filter (\<lambda>t. status t = ''downloaded'')
                    (if truthy ct
                     then filter (\<lambda>t. type' (extractMetadataFromFilename (filename t)) = the ct) ts0
                     else ts0))"
      unfolding ts'_def by simp
  qed
  have p3: "\<forall>h t ty e. prefix (h @ [FindAllMatchingContent t ty]) (calls final) \<longrightarrow>
          findAllMatchingContent c h t ty = Inl e \<longrightarrow>
          calls final = h @ [FindAllMatchingContent t ty]
          \<and> errors (report final) \<noteq> []
          \<and> last (errors (report final)) = ''Quality upgrade check error: '' @ e"
    by (intro allI impI) (rule part3)
  show ?thesis
    by (rule conjI[OF part1 conjI[OF p2 p3]])
qed


theorem scan_failure_handling_witness:
  "addMagnetToRealDebrid submissionFails
       [GetRealDebridTorrents ''key'', FindAllMatchingContent ''A.720p'' ''movie'']
       ''key'' ''mB'' = Failure ''Failed to add magnet''
   \<and> (\<exists>t. ''Failed to upgrade '' @ t @ '': '' @ ''Failed to add magnet''
         \<in> set (errors (report (checkForQualityUpgrades submissionFails ''key'' samplePreferences None))))
   \<and> filter isSearch (calls (checkForQualityUpgrades submissionFails ''key'' samplePreferences None))
       = [FindAllMatchingContent ''A.720p'' ''movie'', FindAllMatchingContent ''B.720p'' ''movie'']
   \<and> findAllMatchingContent searchRejected [GetRealDebridTorrents ''key''] ''A.720p'' ''movie''
       = Inl ''network down''
   \<and> calls (checkForQualityUpgrades searchRejected ''key'' samplePreferences None)
       = [GetRealDebridTorrents ''key'', FindAllMatchingContent ''A.720p'' ''movie'']
   \<and> last (errors (report (checkForQualityUpgrades searchRejected ''key'' samplePreferences None)))
       = ''Quality upgrade check error: network down''"
proof -
  note A = scan_failure_handling[OF refl, where c = submissionFails and k = "''key''"
      and prefs = samplePreferences and ct = None]
  note B = scan_failure_handling[OF refl, where c = searchRejected and k = "''key''"
      and prefs = samplePreferences and ct = None]
  have f1: "addMagnetToRealDebrid submissionFails
       [GetRealDebridTorrents ''key'', FindAllMatchingContent ''A.720p'' ''movie'']
       ''key'' ''mB'' = Failure ''Failed to add magnet''"
    by (simp add: submissionFails_def)
  have p1: "prefix ([GetRealDebridTorrents ''key'', FindAllMatchingContent ''A.720p'' ''movie'']
        @ [AddMagnetToRealDebrid ''key'' ''mB''])
      (calls (checkForQualityUpgrades submissionFails ''key'' samplePreferences None))"
    by code_simp
  from A[THEN conjunct1, rule_format, OF p1 f1]
  have c1: "\<exists>t. ''Failed to upgrade '' @ t @ '': '' @ ''Failed to add magnet''
         \<in> set (errors (report (checkForQualityUpgrades submissionFails ''key'' samplePreferences None)))" .
  have never: "\<And>h t ty. \<exists>ms. findAllMatchingContent submissionFails h t ty = Inr ms"
    by (simp add: submissionFails_def)
  have ts: "getRealDebridTorrents submissionFails [] ''key''
      = Success [held ''T1'' ''A.720p'', held ''T2'' ''B.720p'']"
    by (simp add: submissionFails_def)
  have ev: "map searchFor (filter (\<lambda>t. status t = ''downloaded'')
        (if truthy None
         then filter (\<lambda>t. type' (extractMetadataFromFilename (filename t)) = the None)
                [held ''T1'' ''A.720p'', held ''T2'' ''B.720p'']
         else [held ''T1'' ''A.720p'', held ''T2'' ''B.720p'']))
      = [FindAllMatchingContent ''A.720p'' ''movie'', FindAllMatchingContent ''B.720p'' ''movie'']"
    by code_simp
  from A[THEN conjunct2, THEN conjunct1, rule_format, OF never ts]
  have c2: "filter isSearch (calls (checkForQualityUpgrades submissionFails ''key'' samplePreferences None))
       = [FindAllMatchingContent ''A.720p'' ''movie'', FindAllMatchingContent ''B.720p'' ''movie'']"
    unfolding ev .
  have f2: "findAllMatchingContent searchRejected [GetRealDebridTorrents ''key''] ''A.720p'' ''movie''
       = Inl ''network down''"
    by (simp add: searchRejected_def)
  have p2: "prefix ([GetRealDebridTorrents ''key''] @ [FindAllMatchingContent ''A.720p'' ''movie''])
      (calls (checkForQualityUpgrades searchRejected ''key'' samplePreferences None))"
    by code_simp
  from B[THEN conjunct2, THEN conjunct2, rule_format, OF p2 f2]
  have c3: "calls (checkForQualityUpgrades searchRejected ''key'' samplePreferences None)
       = [GetRealDebridTorrents ''key'', FindAllMatchingContent ''A.720p'' ''movie'']"
    and c4: "last (errors (report (checkForQualityUpgrades searchRejected ''key'' samplePreferences None)))
       = ''Quality upgrade check error: '' @ ''network down''"
    by simp_all
  from f1 c1 c2 f2 c3 c4 show ?thesis by simp
qed

end
